theory Spec2Isabelle
  imports Main "HOL-Library.Word" "HOL-Library.Signed_Division" "HOL-Library.Code_Target_Numeral"
begin

unbundle bit_operations_syntax

section \<open>Machine model\<close>

text \<open>
  The embedding follows \<^verbatim>\<open>imio.c\<close> on an LP64 host: \<^verbatim>\<open>unsigned char\<close> is an
  8-bit word, \<^verbatim>\<open>int\<close> and \<^verbatim>\<open>uint32\<close> are 32-bit words (read with \<open>sint\<close> where the
  C type is signed, with \<open>unat\<close> where it is unsigned; arithmetic wraps around as
  two's complement), \<^verbatim>\<open>size_t\<close> and \<^verbatim>\<open>unsigned long\<close> are 64-bit words.
  The contents of a file and of a pixel buffer are lists of bytes. C strings (paths,
  names, messages) are modelled by their characters. A path that a caller passes is
  taken to fit the \<^verbatim>\<open>PATH_MAX\<close>-sized local arrays that hold it with an extension; the
  capacity of the arrays that \<^verbatim>\<open>ReadMap\<close> fills from the file is part of the model.

  A function that returns 0 after \<^verbatim>\<open>sprintf(error, ...)\<close> yields \<open>Inl\<close> of the message;
  a function that returns 1 yields \<open>Inr\<close> of its out-parameters.
\<close>

type_synonym byte = "8 word"
type_synonym 'a result = "string + 'a"

abbreviation ch :: "char \<Rightarrow> byte" where
  "ch c \<equiv> of_char c"

definition bytes_of :: "string \<Rightarrow> byte list" where
  "bytes_of s = map of_char s"

definition string_of :: "byte list \<Rightarrow> string" where
  "string_of bs = map (\<lambda>b. char_of (unat b)) bs"

definition nl :: string where
  "nl = [CHR 0x0A]"

text \<open>\<^verbatim>\<open>printf\<close> conversions: \<^verbatim>\<open>%lu\<close> of an unsigned value and \<^verbatim>\<open>%d\<close> of an \<^verbatim>\<open>int\<close>.\<close>

fun show_nat :: "nat \<Rightarrow> string" where
  "show_nat n =
     (if n < 10 then [] else show_nat (n div 10)) @ [char_of (48 + n mod 10)]"

declare show_nat.simps [simp del]

definition show_int :: "int \<Rightarrow> string" where
  "show_int i = (if i < 0 then CHR ''-'' # show_nat (nat (- i)) else show_nat (nat i))"

definition show_d :: "32 word \<Rightarrow> string" where
  "show_d x = show_int (sint x)"

text \<open>
  The environment of a call: the file system, the resources the C library may refuse
  (\<^verbatim>\<open>fopen(..., "wb")\<close>, \<^verbatim>\<open>malloc\<close>), the indeterminate contents of fresh memory, what
  libtiff, libjpeg and zlib compute (decoding a file, encoding an image: \<open>tiff_encode\<close>
  with the flag for Deflate, \<open>None\<close> when \<^verbatim>\<open>TIFFWriteScanline\<close> fails; \<open>jpeg_encode\<close> with
  the quality), and the two static variables of \<^verbatim>\<open>imio.c\<close>. The header \<^verbatim>\<open>imio.h\<close> is not
  among the sources: \<open>enum_value\<close> is the integer of the n-th enumerator of
  \<^verbatim>\<open>ImageCompression\<close> as listed below, which two error messages print.
\<close>

record tiff =
  bitspersample :: "16 word option"
  bps_local :: "16 word"
  samplesperpixel :: "16 word option"
  imagewidth :: "32 word option"
  imagelength :: "32 word option"
  photometric :: "16 word option"
  strip_size :: "64 word"
  strips :: "byte list option list"

record jpeg =
  image_width :: "32 word"
  image_height :: "32 word"
  output_width :: "32 word"
  output_height :: "32 word"
  output_components :: "32 word"
  scanlines :: "byte list"

record world =
  files :: "string \<rightharpoonup> byte list"
  writable :: "string \<Rightarrow> bool"
  malloc_ok :: "nat \<Rightarrow> bool"
  junk :: "nat \<Rightarrow> byte"
  libtiff :: "byte list \<Rightarrow> tiff option"
  libjpeg :: "byte list \<Rightarrow> jpeg"
  tiff_encode :: "bool \<Rightarrow> 32 word \<Rightarrow> 32 word \<Rightarrow> byte list \<Rightarrow> byte list option"
  jpeg_encode :: "nat \<Rightarrow> 32 word \<Rightarrow> 32 word \<Rightarrow> byte list \<Rightarrow> byte list"
  gzip :: "byte list \<Rightarrow> byte list"
  enum_value :: "nat \<Rightarrow> int"
  extension :: nat
  bitmapExtension :: nat

text \<open>\<^verbatim>\<open>malloc(n)\<close>: \<open>None\<close> is \<^verbatim>\<open>NULL\<close>, otherwise a block of \<open>n\<close> indeterminate bytes.\<close>

definition malloc :: "world \<Rightarrow> nat \<Rightarrow> byte list option" where
  "malloc w n = (if malloc_ok w n then Some (map (junk w) [0..<n]) else None)"

text \<open>\<^verbatim>\<open>memcpy(b + off, xs, length xs)\<close> on a buffer held as a list.\<close>

definition store :: "byte list \<Rightarrow> nat \<Rightarrow> byte list \<Rightarrow> byte list" where
  "store b off xs = take off b @ xs @ drop (off + length xs) b"

section \<open>TIFF images\<close>

text \<open>
  \<^verbatim>\<open>TIFFOpen\<close> of a path: \<open>None\<close> where the file is missing or libtiff rejects it. The
  \<open>tiff\<close> record holds what the libtiff calls of \<^verbatim>\<open>ReadTiffImage\<close> return on the open
  image: each \<^verbatim>\<open>TIFFGetField\<close> (\<open>None\<close> when it returns 0), \<^verbatim>\<open>TIFFStripSize\<close>, and for
  every strip what \<^verbatim>\<open>TIFFReadEncodedStrip\<close> decodes (\<open>None\<close> when it returns -1).
  \<open>bps_local\<close> is the content of the local \<^verbatim>\<open>bps\<close> before the first call, which the
  first error message prints when the tag is undefined.
\<close>

definition TIFFOpen :: "world \<Rightarrow> string \<Rightarrow> tiff option" where
  "TIFFOpen w filename =
     (case files w filename of None \<Rightarrow> None | Some contents \<Rightarrow> libtiff w contents)"

definition PHOTOMETRIC_MINISBLACK :: "16 word" where
  "PHOTOMETRIC_MINISBLACK = 1"

text \<open>
  The loop over the strips, lines 626-637: strip \<open>stripCount\<close> is decoded to
  \<^verbatim>\<open>b + imageOffset\<close>, at most \<open>stripSize\<close> bytes of it; \<open>Inl stripCount\<close> is the read
  error on that strip.
\<close>

fun read_strips :: "nat \<Rightarrow> byte list option list \<Rightarrow> byte list \<Rightarrow> nat \<Rightarrow> nat \<Rightarrow> nat + byte list" where
  "read_strips stripSize [] b imageOffset stripCount = Inr b"
| "read_strips stripSize (s # ss) b imageOffset stripCount =
     (case s of
        None \<Rightarrow> Inl stripCount
      | Some d \<Rightarrow>
          read_strips stripSize ss (store b imageOffset (take stripSize d))
            (imageOffset + length (take stripSize d)) (Suc stripCount))"

text \<open>The loop of lines 650-651: \<^verbatim>\<open>b[count] = ~b[count]\<close> for \<open>count < bufferSize\<close>.\<close>

definition flip_bits :: "nat \<Rightarrow> byte list \<Rightarrow> byte list" where
  "flip_bits bufferSize b = map NOT (take bufferSize b) @ drop bufferSize b"

definition ReadTiffImage :: "world \<Rightarrow> string \<Rightarrow> (byte list \<times> 32 word \<times> 32 word) result" where
  "ReadTiffImage w filename =
     (case TIFFOpen w filename of
        None \<Rightarrow> Inl (''Could not open TIFF image: '' @ filename @ nl)
      | Some tif \<Rightarrow>
     if bitspersample tif \<noteq> Some 8 then
       Inl (''Either undefined or unsupported number of bits per sample (bps = ''
            @ show_nat (unat (case bitspersample tif of None \<Rightarrow> bps_local tif | Some bps \<Rightarrow> bps))
            @ '') in tiff image '' @ filename @ nl)
     else if samplesperpixel tif \<noteq> None \<and> samplesperpixel tif \<noteq> Some 1 then
       Inl (''Unsupported number of samples per pixel (spp = ''
            @ show_nat (unat (the (samplesperpixel tif)))
            @ '') in tiff image '' @ filename @ nl)
     else case imagewidth tif of
        None \<Rightarrow> Inl (''TIFF image '' @ filename @ '' does not define its width'' @ nl)
      | Some iw \<Rightarrow>
     (case imagelength tif of
        None \<Rightarrow> Inl (''Image '' @ filename @ '' does not define its height (length)'' @ nl)
      | Some ih \<Rightarrow>
     let stripSize = strip_size tif;
         stripMax = (of_nat (length (strips tif)) :: 32 word);
         bufferSize = unat ((scast stripMax :: 64 word) * stripSize)
     in (case malloc w bufferSize of
        None \<Rightarrow> Inl (''Could not allocate enough memory for the uncompressed image (bytes = ''
                     @ show_nat bufferSize @ '') of TIFF file '' @ filename @ nl)
      | Some b0 \<Rightarrow>
     (case read_strips (unat stripSize) (take (nat (sint stripMax)) (strips tif)) b0 0 0 of
        Inl stripCount \<Rightarrow>
          Inl (''Read error on input strip number '' @ show_nat stripCount
               @ '' in TIFF file '' @ filename @ nl)
      | Inr b \<Rightarrow>
     (case photometric tif of
        None \<Rightarrow> Inl (''TIFF file '' @ filename @ '' has an undefined photometric interpretation'' @ nl)
      | Some photo \<Rightarrow>
          Inr (if photo \<noteq> PHOTOMETRIC_MINISBLACK then flip_bits bufferSize b else b, iw, ih))))))"

text \<open>
  The decoded strip data of an image, as \<^verbatim>\<open>ReadTiffImage\<close> has it in \<^verbatim>\<open>b\<close> when the strip
  loop is done: \<open>None\<close> where the function has returned 0 before that point.
\<close>

definition decoded_strips :: "world \<Rightarrow> string \<Rightarrow> byte list option" where
  "decoded_strips w filename =
     (case TIFFOpen w filename of
        None \<Rightarrow> None
      | Some tif \<Rightarrow>
          let stripSize = strip_size tif;
              stripMax = (of_nat (length (strips tif)) :: 32 word);
              bufferSize = unat ((scast stripMax :: 64 word) * stripSize)
          in (case malloc w bufferSize of
                None \<Rightarrow> None
              | Some b0 \<Rightarrow>
                  (case read_strips (unat stripSize) (take (nat (sint stripMax)) (strips tif)) b0 0 0 of
                     Inl _ \<Rightarrow> None
                   | Inr b \<Rightarrow> Some b)))"

section \<open>The C library on byte streams\<close>

text \<open>
  A stream opened for reading is the list of the bytes not yet read. \<^verbatim>\<open>fgetc\<close> yields
  \<open>None\<close> for \<^verbatim>\<open>EOF\<close>. \<^verbatim>\<open>fread(ptr, size, nmemb, f)\<close> stores the bytes it can read
  and returns the number of complete items.
\<close>

definition fgetc :: "byte list \<Rightarrow> byte option \<times> byte list" where
  "fgetc f = (case f of [] \<Rightarrow> (None, []) | c # f' \<Rightarrow> (Some c, f'))"

definition fread :: "nat \<Rightarrow> nat \<Rightarrow> byte list \<Rightarrow> byte list \<times> nat" where
  "fread sz nmemb f =
     (let got = take (sz * nmemb) f
      in (got, if sz = 0 then 0 else length got div sz))"

text \<open>
  \<^verbatim>\<open>fwrite(ptr, size, nmemb, f)\<close> on a stream with room: the bytes appended to the file
  and the return value, which is 0 when the size or the count is 0. \<open>ptr\<close> is the
  content of the memory from the pointer on.
\<close>

definition fwrite :: "byte list \<Rightarrow> nat \<Rightarrow> nat \<Rightarrow> byte list \<times> nat" where
  "fwrite ptr sz nmemb =
     (if sz = 0 \<or> nmemb = 0 then ([], 0) else (take (sz * nmemb) ptr, nmemb))"

text \<open>Conversions to \<^verbatim>\<open>size_t\<close>: sign extension of an \<^verbatim>\<open>int\<close>, zero extension of a \<^verbatim>\<open>uint32\<close>.\<close>

definition size_of_int :: "32 word \<Rightarrow> 64 word" where
  "size_of_int x = scast x"

definition size_of_uint :: "32 word \<Rightarrow> 64 word" where
  "size_of_uint x = ucast x"

text \<open>C's \<^verbatim>\<open>/\<close> on \<^verbatim>\<open>int\<close> truncates towards zero.\<close>

definition sdiv32 :: "32 word \<Rightarrow> 32 word \<Rightarrow> 32 word" where
  "sdiv32 a b = word_of_int (sint a sdiv sint b)"

text \<open>\<^verbatim>\<open>strcasecmp(&filename[len - n], ext) == 0\<close> for an extension of \<open>n\<close> characters.\<close>

definition tolower :: "char \<Rightarrow> char" where
  "tolower c =
     (let n = (of_char c :: nat) in if 65 \<le> n \<and> n \<le> 90 then char_of (n + 32) else c)"

definition strcasecmp_tail :: "string \<Rightarrow> string \<Rightarrow> bool" where
  "strcasecmp_tail filename ext =
     (map tolower (drop (length filename - length ext) filename) = map tolower ext)"

section \<open>Netpbm headers\<close>

abbreviation is_digit :: "byte \<Rightarrow> bool" where
  "is_digit c \<equiv> ch CHR ''0'' \<le> c \<and> c \<le> ch CHR ''9''"

abbreviation is_blank :: "byte \<Rightarrow> bool" where
  "is_blank c \<equiv> c = ch CHR '' '' \<or> c = 9 \<or> c = 10"

text \<open>\<^verbatim>\<open>while ((c = fgetc(f)) != EOF && c != '\n') ;\<close> yields the last \<open>c\<close> and the stream.\<close>

fun skip_line :: "byte list \<Rightarrow> byte option \<times> byte list" where
  "skip_line [] = (None, [])"
| "skip_line (c # f) = (if c = 10 then (Some c, f) else skip_line f)"

text \<open>
  The loop that skips blanks and comments before a number (lines 1437-1443, 1457-1463,
  1480-1484), on the current character \<open>c\<close> and the stream.
\<close>

function skip_blanks :: "byte option \<Rightarrow> byte list \<Rightarrow> byte option \<times> byte list" where
  "skip_blanks c f =
     (case c of
        None \<Rightarrow> (c, f)
      | Some x \<Rightarrow>
          if x = ch CHR ''#'' then (case skip_line f of (c', f') \<Rightarrow> skip_blanks c' f')
          else if is_blank x then (case fgetc f of (c', f') \<Rightarrow> skip_blanks c' f')
          else (c, f))"
  by pat_completeness auto
termination
proof (relation "measure (\<lambda>(c, f). length f + (case c of None \<Rightarrow> 0 | Some _ \<Rightarrow> 1))")
  have line: "length f' + (case c' of None \<Rightarrow> 0 | Some _ \<Rightarrow> 1) \<le> length f"
    if "skip_line f = (c', f')" for f f' and c' :: "byte option"
    using that by (induction f) (auto split: if_splits)
  show "wf (measure (\<lambda>(c :: byte option, f :: byte list).
              length f + (case c of None \<Rightarrow> 0 | Some _ \<Rightarrow> 1)))"
    by simp
  show "((c', f'), (c, f)) \<in> measure (\<lambda>(c, f). length f + (case c of None \<Rightarrow> 0 | Some _ \<Rightarrow> 1))"
    if "c = Some x" "x = ch CHR ''#''" "(c', f') = skip_line f"
    for c x f c' and f' :: "byte list"
    using line [of f c' f'] that(1) that(3) [symmetric] by simp
  show "((c', f'), (c, f)) \<in> measure (\<lambda>(c, f). length f + (case c of None \<Rightarrow> 0 | Some _ \<Rightarrow> 1))"
    if "c = Some x" "(c', f') = fgetc f"
    for c x f c' and f' :: "byte list"
    using that by (auto simp: fgetc_def split: list.splits)
qed

declare skip_blanks.simps [simp del]

text \<open>
  The loop that reads a decimal number (lines 1447-1451), entered with a digit \<open>c\<close>:
  \<^verbatim>\<open>v = 10 * v + (c - '0'); c = fgetc(f)\<close> while \<open>c\<close> is a digit.
\<close>

fun read_number :: "32 word \<Rightarrow> byte \<Rightarrow> byte list \<Rightarrow> 32 word \<times> byte option \<times> byte list" where
  "read_number v c [] = (10 * v + (ucast c - 48), None, [])"
| "read_number v c (c' # f) =
     (if is_digit c' then read_number (10 * v + (ucast c - 48)) c' f
      else (10 * v + (ucast c - 48), Some c', f))"

text \<open>Blanks, comments and then a number: \<open>None\<close> is the \<^verbatim>\<open>return(0)\<close> of a missing digit.\<close>

definition header_number :: "byte option \<Rightarrow> byte list \<Rightarrow> (32 word \<times> byte option \<times> byte list) option" where
  "header_number c f =
     (case skip_blanks c f of
        (None, _) \<Rightarrow> None
      | (Some x, f') \<Rightarrow> if is_digit x then Some (read_number 0 x f') else None)"

text \<open>
  \<^verbatim>\<open>ReadHeader\<close>: the type character, the width and the height (the maximum value is
  read and dropped by every caller), and the stream after the header.
\<close>

definition ReadHeader :: "byte list \<Rightarrow> (byte \<times> 32 word \<times> 32 word \<times> byte list) option" where
  "ReadHeader f0 =
     (let (c, f) = fgetc f0;
          (c, f) = (if c = Some (ch CHR ''#'') then skip_line f else (c, f))
      in if c \<noteq> Some (ch CHR ''P'') then None
         else case fgetc f of
           (None, _) \<Rightarrow> None
         | (Some tc, f) \<Rightarrow>
             if tc \<noteq> ch CHR ''4'' \<and> tc \<noteq> ch CHR ''5'' \<and> tc \<noteq> ch CHR ''6'' then None
             else (let (c, f) = fgetc f in
               case header_number c f of
                 None \<Rightarrow> None
               | Some (w, c, f) \<Rightarrow>
                   (case header_number c f of
                      None \<Rightarrow> None
                    | Some (h, c, f) \<Rightarrow>
                        if tc = ch CHR ''4'' then Some (tc, w, h, f)
                        else (case header_number c f of
                                None \<Rightarrow> None
                              | Some (m, c, f) \<Rightarrow> Some (tc, w, h, f)))))"

section \<open>PGM and PPM images\<close>

definition ReadPgmImage :: "world \<Rightarrow> string \<Rightarrow> (byte list \<times> 32 word \<times> 32 word) result" where
  "ReadPgmImage w filename =
     (case files w filename of
        None \<Rightarrow> Inl (''Could not open file '' @ filename @ '' for reading'' @ nl)
      | Some contents \<Rightarrow>
     (case ReadHeader contents of
        None \<Rightarrow> Inl (''Image file '' @ filename @ '' not binary pgm.'' @ nl)
      | Some (tc, iw, ih, f) \<Rightarrow>
     (case malloc w (unat (size_of_uint (iw * ih))) of
        None \<Rightarrow> Inl (''Could not allocate enough memory for image in file '' @ filename @ nl)
      | Some b0 \<Rightarrow>
     (case fread 1 (unat (size_of_uint (iw * ih))) f of (b, n) \<Rightarrow>
        if n \<noteq> unat (size_of_uint (iw * ih)) then
          Inl (''Image file '' @ filename @ '' apparently truncated.'' @ nl)
        else Inr (b, iw, ih)))))"

definition ReadPpmImage :: "world \<Rightarrow> string \<Rightarrow> (byte list \<times> 32 word \<times> 32 word) result" where
  "ReadPpmImage w filename =
     (case files w filename of
        None \<Rightarrow> Inl (''Could not open file '' @ filename @ '' for reading'' @ nl)
      | Some contents \<Rightarrow>
     (case ReadHeader contents of
        None \<Rightarrow> Inl (''Image file '' @ filename @ '' not binary ppm.'' @ nl)
      | Some (tc, iw, ih, f) \<Rightarrow>
     (case malloc w (unat (size_of_uint (iw * ih))) of
        None \<Rightarrow> Inl (''Could not allocate enough memory for image in file '' @ filename @ nl)
      | Some b0 \<Rightarrow>
     (case fread 1 (unat (size_of_uint (iw * ih))) f of (b, n) \<Rightarrow>
        if n \<noteq> unat (size_of_uint (iw * ih)) then
          Inl (''Image file '' @ filename @ '' apparently truncated.'' @ nl)
        else Inr (b, iw, ih)))))"

section \<open>JPEG images\<close>

text \<open>
  \<open>libjpeg\<close> gives, for the bytes of a file, what the decompressor reports after
  \<^verbatim>\<open>jpeg_read_header\<close> and \<^verbatim>\<open>jpeg_calc_output_dimensions\<close> with the output colour
  space forced to grayscale, and the scanlines it decodes.
\<close>

definition ReadJpgImage :: "world \<Rightarrow> string \<Rightarrow> (byte list \<times> 32 word \<times> 32 word) result" where
  "ReadJpgImage w filename =
     (case files w filename of
        None \<Rightarrow> Inl (''Could not open file '' @ filename @ '' for reading'' @ nl)
      | Some contents \<Rightarrow>
          let cinfo = libjpeg w contents
          in if output_components cinfo \<noteq> 1 then
               Inl (''Image file '' @ filename @ '' is not a grayscale jpg.'' @ nl)
             else Inr (scanlines cinfo, output_width cinfo, output_height cinfo))"

section \<open>BMP images\<close>

text \<open>A field read with \<^verbatim>\<open>fread\<close> into an integer of a little-endian host.\<close>

definition le_nat :: "byte list \<Rightarrow> nat" where
  "le_nat bs = foldr (\<lambda>b v. unat b + 256 * v) bs 0"

definition BMP_FILE_TYPE :: nat where
  "BMP_FILE_TYPE = 0x4D42"

text \<open>
  The chain of \<^verbatim>\<open>fread(&field, sizeof(field), 1, f) != 1\<close> tests: the fields are read in
  order, and the first that cannot be read gives the message with its name.
\<close>

fun read_fields :: "string \<Rightarrow> (string \<times> nat) list \<Rightarrow> byte list \<Rightarrow> (nat list \<times> byte list) result" where
  "read_fields filename [] f = Inr ([], f)"
| "read_fields filename ((name, n) # rest) f =
     (if snd (fread n 1 f) \<noteq> 1 then
        Inl (''Image file '' @ filename @ '' not bmp '' @ name @ ''.'' @ nl)
      else case read_fields filename rest (drop n f) of
             Inl e \<Rightarrow> Inl e
           | Inr (vs, f') \<Rightarrow> Inr (le_nat (take n f) # vs, f'))"

definition bmp_file_fields :: "(string \<times> nat) list" where
  "bmp_file_fields =
     [(''file.bfSize'', 4), (''file.bfReserved'', 4), (''file.bfOffset'', 4),
      (''info.biSize'', 4), (''info.biWidth'', 4), (''info.biHeight'', 4),
      (''info.biPlanes'', 2), (''info.biBitCount'', 2)]"

definition bmp_info_fields :: "(string \<times> nat) list" where
  "bmp_info_fields =
     [(''info.biCompression'', 4), (''info.biImageSize'', 4), (''info.biPixPerMeterX'', 4),
      (''info.biPixPerMeterY'', 4), (''info.biColorUsed'', 4), (''info.biColorImportant'', 4)]"

text \<open>
  The row loop of \<^verbatim>\<open>ReadBmpImage\<close> (lines 928-942), for \<open>i\<close> from the height down to 1,
  at the position \<open>pos\<close> of the file: \<open>width\<close> bytes are read to row \<open>i - 1\<close> of the
  buffer, then the position moves by \<open>rowsize - width\<close>.
\<close>

fun bmp_rows :: "string \<Rightarrow> byte list \<Rightarrow> 32 word \<Rightarrow> 32 word \<Rightarrow> nat \<Rightarrow> nat \<Rightarrow> byte list \<Rightarrow> byte list result" where
  "bmp_rows filename contents width rowsize 0 pos b = Inr b"
| "bmp_rows filename contents width rowsize (Suc i) pos b =
     (let n = unat (size_of_int width) in
      case fread 1 n (drop pos contents) of (row, got) \<Rightarrow>
        if got \<noteq> n then Inl (''Image file '' @ filename @ '' apparently truncated.'' @ nl)
        else let pos' = int pos + int n + sint (rowsize - width)
             in if pos' < 0 then
                  Inl (''Could not reach image data in file '' @ filename @ '', row ''
                       @ show_nat (Suc i) @ nl)
                else bmp_rows filename contents width rowsize i (nat pos')
                       (store b (unat (size_of_int (of_nat i * width))) row))"

text \<open>The row size of line 914: \<^verbatim>\<open>(int)(ceil((info.biBitCount*(*width)/32)*4))\<close>, all in \<^verbatim>\<open>int\<close>.\<close>

definition bmp_rowsize :: "32 word \<Rightarrow> 32 word \<Rightarrow> 32 word" where
  "bmp_rowsize biBitCount width = sdiv32 (biBitCount * width) 32 * 4"

definition ReadBmpImage :: "world \<Rightarrow> string \<Rightarrow> (byte list \<times> 32 word \<times> 32 word) result" where
  "ReadBmpImage w filename =
     (case files w filename of
        None \<Rightarrow> Inl (''Could not open file '' @ filename @ '' for reading'' @ nl)
      | Some contents \<Rightarrow>
     (case read_fields filename [(''file.bfType'', 2)] contents of
        Inl e \<Rightarrow> Inl e
      | Inr (t, f) \<Rightarrow>
     if t ! 0 \<noteq> BMP_FILE_TYPE then
       Inl (''Image file '' @ filename @ '' not bmp file.bfType.'' @ nl)
     else
     (case read_fields filename bmp_file_fields f of
        Inl e \<Rightarrow> Inl e
      | Inr (v, f) \<Rightarrow>
     let bfOffset = v ! 2; biWidth = v ! 4; biHeight = v ! 5; biBitCount = v ! 7 in
     if biBitCount \<noteq> 8 then
       Inl (''Unsupported pixel size ('' @ show_nat biBitCount @ '') for file '' @ filename
            @ ''. Convert to grayscale image'' @ nl)
     else
     (case read_fields filename bmp_info_fields f of
        Inl e \<Rightarrow> Inl e
      | Inr (v', f) \<Rightarrow>
     let width = (of_nat biWidth :: 32 word);
         height = (of_nat biHeight :: 32 word);
         rowsize = bmp_rowsize (of_nat biBitCount) width
     in (case malloc w (unat (size_of_int (width * height))) of
        None \<Rightarrow> Inl (''Could not allocate enough memory for image in file '' @ filename @ nl)
      | Some b \<Rightarrow>
     (case bmp_rows filename contents width rowsize (nat (sint height)) bfOffset b of
        Inl e \<Rightarrow> Inl e
      | Inr b \<Rightarrow> Inr (b, width, height)))))))"

section \<open>Image sizes\<close>

definition ReadTiffImageSize :: "world \<Rightarrow> string \<Rightarrow> (32 word \<times> 32 word) result" where
  "ReadTiffImageSize w filename =
     (case TIFFOpen w filename of
        None \<Rightarrow> Inl (''Could not open TIFF image: '' @ filename @ nl)
      | Some tif \<Rightarrow>
     (case imagewidth tif of
        None \<Rightarrow> Inl (''TIFF image '' @ filename @ '' does not define its width'' @ nl)
      | Some iw \<Rightarrow>
     (case imagelength tif of
        None \<Rightarrow> Inl (''TIFF image '' @ filename @ '' does not define its height (length)'' @ nl)
      | Some ih \<Rightarrow> Inr (iw, ih))))"

definition ReadPgmImageSize :: "world \<Rightarrow> string \<Rightarrow> (32 word \<times> 32 word) result" where
  "ReadPgmImageSize w filename =
     (case files w filename of
        None \<Rightarrow> Inl (''Could not open file '' @ filename @ '' for reading'' @ nl)
      | Some contents \<Rightarrow>
     (case ReadHeader contents of
        None \<Rightarrow> Inl (''Image file '' @ filename @ '' not binary pgm.'' @ nl)
      | Some (tc, iw, ih, f) \<Rightarrow> Inr (iw, ih)))"

definition ReadPpmImageSize :: "world \<Rightarrow> string \<Rightarrow> (32 word \<times> 32 word) result" where
  "ReadPpmImageSize w filename =
     (case files w filename of
        None \<Rightarrow> Inl (''Could not open file '' @ filename @ '' for reading'' @ nl)
      | Some contents \<Rightarrow>
     (case ReadHeader contents of
        None \<Rightarrow> Inl (''Image file '' @ filename @ '' not binary ppm.'' @ nl)
      | Some (tc, iw, ih, f) \<Rightarrow> Inr (iw, ih)))"

definition ReadJpgImageSize :: "world \<Rightarrow> string \<Rightarrow> (32 word \<times> 32 word) result" where
  "ReadJpgImageSize w filename =
     (case files w filename of
        None \<Rightarrow> Inl (''Could not open file '' @ filename @ '' for reading'' @ nl)
      | Some contents \<Rightarrow>
          Inr (image_width (libjpeg w contents), image_height (libjpeg w contents)))"

definition ReadBmpImageSize :: "world \<Rightarrow> string \<Rightarrow> (32 word \<times> 32 word) result" where
  "ReadBmpImageSize w filename =
     (case files w filename of
        None \<Rightarrow> Inl (''Could not open file '' @ filename @ '' for reading'' @ nl)
      | Some contents \<Rightarrow>
     (case read_fields filename [(''file.bfType'', 2)] contents of
        Inl e \<Rightarrow> Inl e
      | Inr (t, f) \<Rightarrow>
     if t ! 0 \<noteq> BMP_FILE_TYPE then
       Inl (''Image file '' @ filename @ '' not bmp file.bfType.'' @ nl)
     else
     (case read_fields filename (bmp_file_fields @ bmp_info_fields) f of
        Inl e \<Rightarrow> Inl e
      | Inr (v, f) \<Rightarrow> Inr (of_nat (v ! 4), of_nat (v ! 5)))))"

section \<open>Reading an image by name\<close>

definition N_EXTENSIONS :: nat where
  "N_EXTENSIONS = 14"

definition extensions :: "string list" where
  "extensions = [''.tif'', ''.tiff'', ''.TIF'', ''.TIFF'', ''.pgm'', ''.PGM'', ''.ppm'', ''.PPM'',
                 ''.jpg'', ''.jpeg'', ''.JPG'', ''.JPEG'', ''.bmp'', ''.BMP'']"

text \<open>
  The probing loop (lines 145-151 and 454-460): \<open>i\<close> is the loop counter and the last
  argument the number of rounds left; the result is the index \<open>k\<close> of the first
  candidate for which \<^verbatim>\<open>stat\<close> succeeds, \<open>None\<close> when the loop runs to its end.
\<close>

fun probe :: "world \<Rightarrow> string \<Rightarrow> nat \<Rightarrow> nat \<Rightarrow> nat option" where
  "probe w filename i 0 = None"
| "probe w filename i (Suc n) =
     (let k = (extension w + i) mod N_EXTENSIONS
      in if files w (filename @ extensions ! k) = None then probe w filename (Suc i) n
         else Some k)"

text \<open>The \<^verbatim>\<open>switch (k)\<close> of \<^verbatim>\<open>ReadImage\<close> and of \<^verbatim>\<open>ReadImageSize\<close>.\<close>

definition read_case :: "world \<Rightarrow> nat \<Rightarrow> string \<Rightarrow> (byte list \<times> 32 word \<times> 32 word) result" where
  "read_case w k fn =
     (if k \<le> 3 then ReadTiffImage w fn
      else if k \<le> 5 then ReadPgmImage w fn
      else if k \<le> 7 then ReadPpmImage w fn
      else if k \<le> 11 then ReadJpgImage w fn
      else ReadBmpImage w fn)"

definition size_case :: "world \<Rightarrow> nat \<Rightarrow> string \<Rightarrow> (32 word \<times> 32 word) result" where
  "size_case w k fn =
     (if k \<le> 3 then ReadTiffImageSize w fn
      else if k \<le> 5 then ReadPgmImageSize w fn
      else if k \<le> 7 then ReadPpmImageSize w fn
      else if k \<le> 11 then ReadJpgImageSize w fn
      else ReadBmpImageSize w fn)"

definition ReadImageSize :: "world \<Rightarrow> string \<Rightarrow> (32 word \<times> 32 word) result \<times> world" where
  "ReadImageSize w filename =
     (let len = length filename in
      if len = 0 then (Inl (''Image filename is empty.'' @ nl), w)
      else if len > 4 \<and> strcasecmp_tail filename ''.tif''
              \<or> len > 5 \<and> strcasecmp_tail filename ''.tiff'' then
        (ReadTiffImageSize w filename, w)
      else if len > 4 \<and> strcasecmp_tail filename ''.pgm'' then (ReadPgmImageSize w filename, w)
      else if len > 4 \<and> strcasecmp_tail filename ''.ppm'' then (ReadPpmImageSize w filename, w)
      else if len > 4 \<and> strcasecmp_tail filename ''.jpg''
              \<or> len > 5 \<and> strcasecmp_tail filename ''.jpeg'' then
        (ReadJpgImageSize w filename, w)
      else if len > 4 \<and> strcasecmp_tail filename ''.bmp'' then (ReadBmpImageSize w filename, w)
      else case probe w filename 0 N_EXTENSIONS of
             None \<Rightarrow> (Inl (''Cannot find image file with basename '' @ filename @ nl), w)
           | Some k \<Rightarrow>
               (case size_case w k (filename @ extensions ! k) of
                  Inl e \<Rightarrow> (Inl e, w)
                | Inr sz \<Rightarrow> (Inr sz, w\<lparr>extension := k\<rparr>)))"

text \<open>The first part of \<^verbatim>\<open>ReadImage\<close> (lines 424-502): the whole image is decoded.\<close>

definition load_image :: "world \<Rightarrow> string \<Rightarrow> (byte list \<times> 32 word \<times> 32 word) result \<times> world" where
  "load_image w filename =
     (let len = length filename in
      if len = 0 then (Inl (''Image filename is empty.'' @ nl), w)
      else if len > 4 \<and> strcasecmp_tail filename ''.tif''
              \<or> len > 5 \<and> strcasecmp_tail filename ''.tiff'' then
        (ReadTiffImage w filename, w)
      else if len > 4 \<and> strcasecmp_tail filename ''.pgm'' then (ReadPgmImage w filename, w)
      else if len > 4 \<and> strcasecmp_tail filename ''.jpg''
              \<or> len > 5 \<and> strcasecmp_tail filename ''.jpeg'' then
        (ReadJpgImage w filename, w)
      else if len > 4 \<and> strcasecmp_tail filename ''.bmp'' then (ReadBmpImage w filename, w)
      else case probe w filename 0 N_EXTENSIONS of
             None \<Rightarrow> (Inl (''Cannot find image file with basename '' @ filename @ nl), w)
           | Some k \<Rightarrow>
               (case read_case w k (filename @ extensions ! k) of
                  Inl e \<Rightarrow> (Inl e, w)
                | Inr img \<Rightarrow> (Inr img, w\<lparr>extension := k\<rparr>)))"

text \<open>
  The second part of \<^verbatim>\<open>ReadImage\<close> (lines 504-559). \<open>peek\<close> is the source of a
  \<^verbatim>\<open>memcpy\<close>; \<open>write_row\<close> is the body of the row loop, writing at offset \<open>ptr\<close> of the
  new block; \<open>copy_rows\<close> is the loop \<^verbatim>\<open>for (y = ymin; y <= ymax; ++y)\<close>, whose test
  compares as \<^verbatim>\<open>uint32\<close>, and which does not end when \<open>ymax\<close> is the largest \<^verbatim>\<open>uint32\<close>.
\<close>

definition full_image :: "32 word \<Rightarrow> 32 word \<Rightarrow> 32 word \<Rightarrow> 32 word \<Rightarrow> 32 word \<Rightarrow> 32 word \<Rightarrow> bool" where
  "full_image iw ih minX maxX minY maxY =
     (minX \<le>s 0 \<and> (maxX <s 0 \<or> maxX = iw - 1) \<and> minY \<le>s 0 \<and> (maxY <s 0 \<or> maxY = ih - 1))"

definition peek :: "byte list \<Rightarrow> nat \<Rightarrow> nat \<Rightarrow> byte list" where
  "peek buffer off n = map (\<lambda>i. buffer ! i) [off ..< off + n]"

definition write_row :: "byte list \<Rightarrow> 32 word \<Rightarrow> 32 word \<Rightarrow> 32 word \<Rightarrow> 32 word \<Rightarrow> 32 word \<Rightarrow> 32 word \<Rightarrow> byte list \<Rightarrow> 64 word \<Rightarrow> byte list" where
  "write_row buffer iw ih xmin xmax w y out ptr =
     (if ih \<le>s y \<or> iw \<le> xmin then
        store out (unat ptr) (replicate (unat (size_of_int w)) 0)
      else if xmax < iw then
        store out (unat ptr) (peek buffer (unat (y * iw + xmin)) (unat (size_of_int w)))
      else if w < iw - xmin then
        store out (unat ptr) (peek buffer (unat (y * iw + xmin)) (unat (size_of_int w)))
      else
        store (store out (unat ptr) (peek buffer (unat (y * iw + xmin)) (unat (iw - xmin))))
          (unat (ptr + size_of_int iw - size_of_uint xmin))
          (replicate (unat (xmax - iw + 1)) 0))"

partial_function (option) copy_rows :: "byte list \<Rightarrow> 32 word \<Rightarrow> 32 word \<Rightarrow> 32 word \<Rightarrow> 32 word \<Rightarrow> 32 word \<Rightarrow> 32 word \<Rightarrow> 32 word \<Rightarrow> byte list \<Rightarrow> 64 word \<Rightarrow> byte list option" where
  "copy_rows buffer iw ih xmin xmax w ymax y out ptr =
     (if y \<le> ymax then
        copy_rows buffer iw ih xmin xmax w ymax (y + 1)
          (write_row buffer iw ih xmin xmax w y out ptr) (ptr + size_of_int w)
      else Some out)"

declare copy_rows.simps [code]

definition subregion :: "world \<Rightarrow> string \<Rightarrow> byte list \<times> 32 word \<times> 32 word \<Rightarrow> 32 word \<Rightarrow> 32 word \<Rightarrow> 32 word \<Rightarrow> 32 word \<Rightarrow> (byte list \<times> 32 word \<times> 32 word) result option" where
  "subregion wd filename img minX maxX minY maxY =
     (case img of (buffer, iw, ih) \<Rightarrow>
      if full_image iw ih minX maxX minY maxY then Some (Inr (buffer, iw, ih))
      else
        let xmin = (if minX <s 0 then 0 else minX);
            xmax = (if maxX <s 0 then iw - 1 else maxX);
            ymin = (if minY <s 0 then 0 else minY);
            ymax = (if maxY <s 0 then ih - 1 else maxY);
            w = xmax - xmin + 1;
            h = ymax - ymin + 1
        in case malloc wd (unat (size_of_int (w * h))) of
             None \<Rightarrow>
               Some (Inl (''Could not allocate enough memory for requested image subregion of ''
                          @ filename @ nl))
           | Some ptr \<Rightarrow>
               (case copy_rows buffer iw ih xmin xmax w ymax ymin ptr 0 of
                  None \<Rightarrow> None
                | Some out \<Rightarrow> Some (Inr (out, w, h))))"

text \<open>\<^verbatim>\<open>ReadImage\<close>: \<open>None\<close> when the call does not return.\<close>

definition ReadImage :: "world \<Rightarrow> string \<Rightarrow> 32 word \<Rightarrow> 32 word \<Rightarrow> 32 word \<Rightarrow> 32 word \<Rightarrow> ((byte list \<times> 32 word \<times> 32 word) result \<times> world) option" where
  "ReadImage w filename minX maxX minY maxY =
     (case load_image w filename of
        (Inl e, w') \<Rightarrow> Some (Inl e, w')
      | (Inr img, w') \<Rightarrow>
          (case subregion w' filename img minX maxX minY maxY of
             None \<Rightarrow> None
           | Some r \<Rightarrow> Some (r, w')))"

section \<open>Writing images\<close>

datatype ImageCompression =
  UncompressedImage | HDiffDeflateImage
  | JpegQuality95 | JpegQuality90 | JpegQuality85 | JpegQuality80 | JpegQuality75 | JpegQuality70

fun enum_index :: "ImageCompression \<Rightarrow> nat" where
  "enum_index UncompressedImage = 0"
| "enum_index HDiffDeflateImage = 1"
| "enum_index JpegQuality95 = 2"
| "enum_index JpegQuality90 = 3"
| "enum_index JpegQuality85 = 4"
| "enum_index JpegQuality80 = 5"
| "enum_index JpegQuality75 = 6"
| "enum_index JpegQuality70 = 7"

fun jpeg_quality :: "ImageCompression \<Rightarrow> nat option" where
  "jpeg_quality JpegQuality95 = Some 95"
| "jpeg_quality JpegQuality90 = Some 90"
| "jpeg_quality JpegQuality85 = Some 85"
| "jpeg_quality JpegQuality80 = Some 80"
| "jpeg_quality JpegQuality75 = Some 75"
| "jpeg_quality JpegQuality70 = Some 70"
| "jpeg_quality _ = None"

definition WriteJpgImage :: "world \<Rightarrow> string \<Rightarrow> byte list \<Rightarrow> 32 word \<Rightarrow> 32 word \<Rightarrow> nat \<Rightarrow> unit result \<times> world" where
  "WriteJpgImage w filename buffer width height quality =
     (if \<not> writable w filename then
        (Inl (''Could not open file '' @ filename @ '' for writing'' @ nl), w)
      else (Inr (), w\<lparr>files := (files w)(filename \<mapsto> jpeg_encode w quality width height buffer)\<rparr>))"

text \<open>
  \<^verbatim>\<open>WriteImage\<close>. A stream that is written and not closed before a \<^verbatim>\<open>return(0)\<close> still
  reaches the file when the process ends; the model puts every byte written into the
  file at once, and a device with room for it.
\<close>

definition WriteImage :: "world \<Rightarrow> string \<Rightarrow> byte list \<Rightarrow> 32 word \<Rightarrow> 32 word \<Rightarrow> ImageCompression \<Rightarrow> unit result \<times> world" where
  "WriteImage w filename pixels width height compressionMethod =
     (let len = length filename in
      if len < 5 then (Inl (''Image filename is too short: '' @ filename @ nl), w)
      else if strcasecmp_tail filename ''.tif''
              \<or> len > 5 \<and> strcasecmp_tail filename ''.tiff'' then
        (if \<not> writable w filename then
           (Inl (''Could not open file '' @ filename @ '' for writing'' @ nl), w)
         else if compressionMethod \<noteq> UncompressedImage \<and> compressionMethod \<noteq> HDiffDeflateImage then
           (Inl (''Unsupported compression method: ''
                 @ show_int (enum_value w (enum_index compressionMethod)) @ nl),
            w\<lparr>files := (files w)(filename \<mapsto> [])\<rparr>)
         else case tiff_encode w (compressionMethod = HDiffDeflateImage) width height pixels of
                None \<Rightarrow> (Inl (''Could not write to tif file '' @ filename @ nl),
                          w\<lparr>files := (files w)(filename \<mapsto> [])\<rparr>)
              | Some encoded \<Rightarrow> (Inr (), w\<lparr>files := (files w)(filename \<mapsto> encoded)\<rparr>))
      else if strcasecmp_tail filename ''.pgm'' then
        (if \<not> writable w filename then
           (Inl (''Could not open file '' @ filename @ '' for writing'' @ nl), w)
         else
           let header = bytes_of (''P5'' @ nl @ show_d width @ '' '' @ show_d height @ nl @ ''255'' @ nl)
           in case fwrite pixels (unat (size_of_int width * size_of_int height)) 1 of
                (written, n) \<Rightarrow>
                  if n \<noteq> 1 then
                    (Inl (''Could not write to file '' @ filename @ nl),
                     w\<lparr>files := (files w)(filename \<mapsto> header @ written)\<rparr>)
                  else (Inr (), w\<lparr>files := (files w)(filename \<mapsto> header @ written)\<rparr>))
      else if strcasecmp_tail filename ''.jpg'' then
        (case jpeg_quality compressionMethod of
           None \<Rightarrow> (Inl (''Unsupported compression method for jpg output: ''
                          @ show_int (enum_value w (enum_index compressionMethod)) @ nl), w)
         | Some quality \<Rightarrow> WriteJpgImage w filename pixels width height quality)
      else (Inl (''Unrecognized file extension for image file '' @ filename @ nl), w))"

section \<open>Bitmaps\<close>

text \<open>\<^verbatim>\<open>strrchr\<close>: the index of the last occurrence of a character.\<close>

fun strrchr :: "string \<Rightarrow> char \<Rightarrow> nat option" where
  "strrchr [] c = None"
| "strrchr (x # xs) c =
     (case strrchr xs c of
        Some i \<Rightarrow> Some (Suc i)
      | None \<Rightarrow> if x = c then Some 0 else None)"

text \<open>\<^verbatim>\<open>(width + 7) >> 3\<close> in \<^verbatim>\<open>int\<close>, the number of bytes per line.\<close>

definition bytes_per_line :: "32 word \<Rightarrow> 32 word" where
  "bytes_per_line width = signed_drop_bit 3 (width + 7)"

text \<open>
  \<^verbatim>\<open>WriteBitmap\<close>; its parameter \<^verbatim>\<open>compressionMethod\<close> is not used by the code. In the
  \<^verbatim>\<open>.pbm.gz\<close> branch \<^verbatim>\<open>gzopen\<close> is not tested: on a stream that could not be opened
  \<^verbatim>\<open>gzwrite\<close> returns 0.
\<close>

definition WriteBitmap :: "world \<Rightarrow> string \<Rightarrow> byte list \<Rightarrow> 32 word \<Rightarrow> 32 word \<Rightarrow> unit result \<times> world" where
  "WriteBitmap w filename bitmap width height =
     (if length filename < 1 then (Inl (''Bitmap filename is too short: '' @ filename @ nl), w)
      else
        let dotPos = strrchr filename CHR ''.'';
            slashPos = strrchr filename CHR ''/'';
            fullFilename =
              (if dotPos = None \<or> slashPos \<noteq> None \<and> the dotPos < the slashPos
               then filename @ ''.pbm'' else filename);
            len = length fullFilename;
            header = bytes_of (''P4'' @ nl @ show_d width @ '' '' @ show_d height @ nl);
            ibpl = size_of_int (bytes_per_line width)
        in if strcasecmp_tail fullFilename ''.pbm'' then
             (if \<not> writable w fullFilename then
                (Inl (''Could not open file '' @ fullFilename @ '' for writing'' @ nl), w)
              else case fwrite bitmap (unat (ibpl * size_of_int height)) 1 of
                (written, n) \<Rightarrow>
                  if n \<noteq> 1 then
                    (Inl (''Could not write to file '' @ fullFilename @ nl),
                     w\<lparr>files := (files w)(fullFilename \<mapsto> header @ written)\<rparr>)
                  else (Inr (), w\<lparr>files := (files w)(fullFilename \<mapsto> header @ written)\<rparr>))
           else if len > 7 \<and> strcasecmp_tail fullFilename ''.pbm.gz'' then
             (if \<not> writable w fullFilename then
                (if ibpl * size_of_int height \<noteq> 0 then
                   (Inl (''Could not write to file '' @ fullFilename @ nl), w)
                 else (Inr (), w))
              else (Inr (), w\<lparr>files := (files w)(fullFilename \<mapsto>
                      gzip w (header @ take (unat (ibpl * size_of_int height)) bitmap))\<rparr>))
           else (Inl (''Unrecognized file extension for bitmap file '' @ fullFilename @ nl), w))"

definition ReadPbmBitmap :: "world \<Rightarrow> string \<Rightarrow> (byte list \<times> 32 word \<times> 32 word) result" where
  "ReadPbmBitmap w filename =
     (case files w filename of
        None \<Rightarrow> Inl (''Could not open file '' @ filename @ '' for reading'' @ nl)
      | Some contents \<Rightarrow>
     (case ReadHeader contents of
        None \<Rightarrow> Inl (''Mask file not binary pbm: '' @ filename @ nl)
      | Some (tc, iw, ih, f) \<Rightarrow>
     if tc \<noteq> ch CHR ''4'' then Inl (''Mask file not binary pbm: '' @ filename @ nl)
     else
     let ibpl = bytes_per_line iw in
     (case malloc w (unat (size_of_int (ih * ibpl))) of
        None \<Rightarrow> Inl (''Could not allocate enough memory for image in file '' @ filename @ nl)
      | Some b0 \<Rightarrow>
     (case fread 1 (unat (size_of_int (ih * ibpl))) f of (b, n) \<Rightarrow>
        if n \<noteq> unat (size_of_int (ih * ibpl)) then
          Inl (''Image file '' @ filename @ '' apparently truncated.'' @ nl)
        else Inr (b, iw, ih)))))"

text \<open>
  The pixel of a bitmap at \<open>(x, y)\<close>, as \<^verbatim>\<open>ReadBitmap\<close> tests it (line 1331):
  \<^verbatim>\<open>buffer[y*ibpl + (x >> 3)] & (0x80 >> (x & 7))\<close>.
\<close>

definition bitmap_pixel :: "byte list \<Rightarrow> nat \<Rightarrow> nat \<Rightarrow> nat \<Rightarrow> bool" where
  "bitmap_pixel buffer ibpl x y =
     (buffer ! (y * ibpl + x div 8) AND drop_bit (x mod 8) 0x80 \<noteq> 0)"

section \<open>Maps\<close>

text \<open>
  A \<^verbatim>\<open>MapElement\<close> is three \<^verbatim>\<open>float\<close>s; a float is modelled by its 32 bits, and its four
  bytes in memory are those of a little-endian host. \<open>sizeof(MapElement) = 12\<close>.
\<close>

record MapElement =
  x :: "32 word"
  y :: "32 word"
  c :: "32 word"

definition float_bytes :: "32 word \<Rightarrow> byte list" where
  "float_bytes v = map (\<lambda>i. of_nat (unat v div 256 ^ i mod 256)) [0 ..< 4]"

definition float_of_bytes :: "byte list \<Rightarrow> 32 word" where
  "float_of_bytes bs = of_nat (le_nat bs)"

definition MapElement_bytes :: "MapElement \<Rightarrow> byte list" where
  "MapElement_bytes e = float_bytes (x e) @ float_bytes (y e) @ float_bytes (c e)"

definition map_bytes :: "MapElement list \<Rightarrow> byte list" where
  "map_bytes m = concat (map MapElement_bytes m)"

fun map_of_bytes :: "byte list \<Rightarrow> MapElement list" where
  "map_of_bytes bs =
     (if length bs < 12 then []
      else \<lparr>x = float_of_bytes (take 4 bs), y = float_of_bytes (take 4 (drop 4 bs)),
            c = float_of_bytes (take 4 (drop 8 bs))\<rparr> # map_of_bytes (drop 12 bs))"

declare map_of_bytes.simps [simp del]

datatype MapCompression = UncompressedMap | OtherMapCompression nat

text \<open>
  \<^verbatim>\<open>fscanf\<close> conversions, as glibc performs them. \<^verbatim>\<open>%d\<close> skips white space, takes an
  optional sign and one or more digits, converts them as \<^verbatim>\<open>strtol\<close> does, which saturates
  at \<^verbatim>\<open>LONG_MIN\<close> and \<^verbatim>\<open>LONG_MAX\<close>, and stores the \<^verbatim>\<open>long\<close> cut to an \<^verbatim>\<open>int\<close>; \<open>None\<close> is a
  conversion that fails. \<^verbatim>\<open>%s\<close> skips white space and takes the bytes up to the next white
  space, which it stores with a closing NUL in its target: \<open>NoMatch\<close> where there is no
  such byte, \<open>Overrun\<close> where the target is an array of \<open>cap\<close> bytes and the token with its
  NUL is longer, so that \<^verbatim>\<open>fscanf\<close> writes beyond the array.
\<close>

definition PATH_MAX :: nat where
  "PATH_MAX = 4096"

datatype 'a conversion = NoMatch | Overrun | Converted 'a

definition strtol_value :: "bool \<Rightarrow> nat \<Rightarrow> int" where
  "strtol_value neg v =
     (if neg then (if 2 ^ 63 < v then - (2 ^ 63) else - int v)
      else (if 2 ^ 63 - 1 < v then 2 ^ 63 - 1 else int v))"

definition isspace :: "byte \<Rightarrow> bool" where
  "isspace b = (b = 32 \<or> 9 \<le> b \<and> b \<le> 13)"

fun scan_digits :: "nat \<Rightarrow> byte list \<Rightarrow> nat \<times> byte list" where
  "scan_digits v [] = (v, [])"
| "scan_digits v (b # f) =
     (if is_digit b then scan_digits (10 * v + (unat b - 48)) f else (v, b # f))"

definition scan_d :: "byte list \<Rightarrow> (32 word \<times> byte list) option" where
  "scan_d f0 =
     (let f = dropWhile isspace f0;
          (neg, f) = (case f of
                        [] \<Rightarrow> (False, f)
                      | b # f' \<Rightarrow> if b = ch CHR ''-'' then (True, f')
                                  else if b = ch CHR ''+'' then (False, f') else (False, f))
      in case f of
           [] \<Rightarrow> None
         | b # _ \<Rightarrow>
             if is_digit b then
               (case scan_digits 0 f of
                  (v, f') \<Rightarrow> Some (word_of_int (strtol_value neg v), f'))
             else None)"

definition scan_s :: "nat \<Rightarrow> byte list \<Rightarrow> (byte list \<times> byte list) conversion" where
  "scan_s cap f0 =
     (let f = dropWhile isspace f0;
          token = takeWhile (\<lambda>b. \<not> isspace b) f
      in if token = [] then NoMatch
         else if cap < length token + 1 then Overrun
         else Converted (token, dropWhile (\<lambda>b. \<not> isspace b) f))"

text \<open>\<^verbatim>\<open>strcpy\<close> from an array that holds the bytes \<open>src\<close> and a closing NUL.\<close>

definition strcpy :: "byte list \<Rightarrow> string" where
  "strcpy src = string_of (takeWhile (\<lambda>b. b \<noteq> 0) src)"

text \<open>
  The two \<^verbatim>\<open>%s\<close> conversions of \<^verbatim>\<open>ReadMap\<close>, into the arrays \<^verbatim>\<open>imgName\<close> and \<^verbatim>\<open>refName\<close>
  of \<^verbatim>\<open>PATH_MAX\<close> bytes.
\<close>

definition scan_names :: "byte list \<Rightarrow> (byte list \<times> byte list \<times> byte list) conversion" where
  "scan_names f =
     (case scan_s PATH_MAX f of
        NoMatch \<Rightarrow> NoMatch
      | Overrun \<Rightarrow> Overrun
      | Converted (imgName, f1) \<Rightarrow>
          (case scan_s PATH_MAX f1 of
             NoMatch \<Rightarrow> NoMatch
           | Overrun \<Rightarrow> Overrun
           | Converted (refName, f2) \<Rightarrow> Converted (imgName, refName, f2)))"

text \<open>
  The header test of \<^verbatim>\<open>ReadMap\<close> (lines 1670-1676): \<open>NoMatch\<close> where the test is true.
\<close>

definition map_header :: "byte list \<Rightarrow> (32 word \<times> 32 word \<times> 32 word \<times> 32 word \<times> 32 word \<times> byte list \<times> byte list \<times> byte list) conversion" where
  "map_header f0 =
     (case fgetc f0 of (c1, f) \<Rightarrow>
      if c1 \<noteq> Some (ch CHR ''M'') then NoMatch else
      case fgetc f of (c2, f) \<Rightarrow>
      if c2 \<noteq> Some (ch CHR ''1'') then NoMatch else
      case fgetc f of (c3, f) \<Rightarrow>
      if c3 \<noteq> Some 10 then NoMatch else
      case scan_d f of None \<Rightarrow> NoMatch | Some (level, f) \<Rightarrow>
      case scan_d f of None \<Rightarrow> NoMatch | Some (mapWidth, f) \<Rightarrow>
      case scan_d f of None \<Rightarrow> NoMatch | Some (mapHeight, f) \<Rightarrow>
      case scan_d f of None \<Rightarrow> NoMatch | Some (xMin, f) \<Rightarrow>
      case scan_d f of None \<Rightarrow> NoMatch | Some (yMin, f) \<Rightarrow>
      case scan_names f of
        NoMatch \<Rightarrow> NoMatch
      | Overrun \<Rightarrow> Overrun
      | Converted (imgName, refName, f) \<Rightarrow>
          (case fgetc f of (c4, f) \<Rightarrow>
             if c4 \<noteq> Some 10 then NoMatch
             else Converted (level, mapWidth, mapHeight, xMin, yMin, imgName, refName, f)))"

text \<open>
  What \<^verbatim>\<open>ReadMap\<close> stores through its pointers when it returns 1. The result of
  \<^verbatim>\<open>ReadMap\<close> is \<open>None\<close> where a name in the header does not fit its array: the call
  writes beyond \<^verbatim>\<open>imgName\<close> or \<^verbatim>\<open>refName\<close>, and what it does then is undefined.
\<close>

record map_file =
  map_elements :: "MapElement list"
  map_level :: "32 word"
  map_width :: "32 word"
  map_height :: "32 word"
  map_xMin :: "32 word"
  map_yMin :: "32 word"
  map_imageName :: string
  map_referenceName :: string

definition ReadMap :: "world \<Rightarrow> string \<Rightarrow> map_file result option" where
  "ReadMap w filename =
     (case files w filename of
        None \<Rightarrow> Some (Inl (''Cannot open file '' @ filename @ nl))
      | Some contents \<Rightarrow>
     (case map_header contents of
        NoMatch \<Rightarrow> Some (Inl (''Cannot read header of map file '' @ filename @ nl))
      | Overrun \<Rightarrow> None
      | Converted (lv, mapWidth, mapHeight, xm, ym, imgName, refName, f) \<Rightarrow>
     (case malloc w (unat (size_of_int (mapWidth * mapHeight) * 12)) of
        None \<Rightarrow> Some (Inl (''Could not allocate space for map '' @ filename @ nl))
      | Some m0 \<Rightarrow>
     (case fread 12 (unat (size_of_int (mapWidth * mapHeight))) f of (m, n) \<Rightarrow>
        if n \<noteq> unat (size_of_int (mapWidth * mapHeight)) then
          Some (Inl (''Could not read map from file '' @ filename @ nl))
        else Some (Inr \<lparr>map_elements = map_of_bytes m, map_level = lv, map_width = mapWidth,
                        map_height = mapHeight, map_xMin = xm, map_yMin = ym,
                        map_imageName = strcpy imgName,
                        map_referenceName = strcpy refName\<rparr>)))))"

text \<open>
  \<^verbatim>\<open>WriteMap\<close>, with the memory at \<^verbatim>\<open>map\<close> given as a list of elements. The header that
  \<^verbatim>\<open>fprintf\<close> writes is \<open>map_header_text\<close>. Where \<^verbatim>\<open>fwrite\<close> fails the stream is left open,
  and as for \<^verbatim>\<open>WriteImage\<close> the bytes written so far are put into the file.
\<close>

definition map_header_text :: "32 word \<Rightarrow> 32 word \<Rightarrow> 32 word \<Rightarrow> 32 word \<Rightarrow> 32 word \<Rightarrow> string \<Rightarrow> string \<Rightarrow> string" where
  "map_header_text lv wd ht xm ym imgName refName =
     ''M1'' @ nl @ show_d lv @ nl @ show_d wd @ '' '' @ show_d ht @ nl
     @ show_d xm @ '' '' @ show_d ym @ nl @ imgName @ '' '' @ refName @ nl"

definition WriteMap :: "world \<Rightarrow> string \<Rightarrow> MapElement list \<Rightarrow> 32 word \<Rightarrow> 32 word \<Rightarrow> 32 word \<Rightarrow> 32 word \<Rightarrow> 32 word \<Rightarrow> string \<Rightarrow> string \<Rightarrow> MapCompression \<Rightarrow> unit result \<times> world" where
  "WriteMap w filename m lv wd ht xm ym imgName refName compressionMethod =
     (if compressionMethod \<noteq> UncompressedMap then
        (Inl (''WriteMap: unsupported compression method'' @ nl), w)
      else if \<not> writable w filename then
        (Inl (''Cannot open file '' @ filename @ '' for writing'' @ nl), w)
      else
        let header = bytes_of (map_header_text lv wd ht xm ym imgName refName)
        in case fwrite (map_bytes m) (unat (size_of_int wd * size_of_int ht * 12)) 1 of
             (written, n) \<Rightarrow>
               if n \<noteq> 1 then
                 (Inl (''Could not write to file '' @ filename @ nl),
                  w\<lparr>files := (files w)(filename \<mapsto> header @ written)\<rparr>)
               else (Inr (), w\<lparr>files := (files w)(filename \<mapsto> header @ written)\<rparr>))"

text \<open>The size of the buffer that \<^verbatim>\<open>ReadTiffImage\<close> allocates and returns.\<close>

definition buffer_size :: "tiff \<Rightarrow> nat" where
  "buffer_size tif =
     unat ((scast (of_nat (length (strips tif)) :: 32 word) :: 64 word) * strip_size tif)"

text \<open>A small environment: one min-is-white TIFF of 2 x 2 pixels in two strips.\<close>

definition example_tiff :: tiff where
  "example_tiff = \<lparr>bitspersample = Some 8, bps_local = 0, samplesperpixel = Some 1,
     imagewidth = Some 2, imagelength = Some 2, photometric = Some 0,
     strip_size = 2, strips = [Some [1, 2], Some [3, 4]]\<rparr>"

definition example_jpeg :: jpeg where
  "example_jpeg = \<lparr>image_width = 0, image_height = 0, output_width = 0, output_height = 0, output_components = 1, scanlines = []\<rparr>"

definition tiff_world :: world where
  "tiff_world = \<lparr>files = [''a.tif'' \<mapsto> []], writable = (\<lambda>_. True), malloc_ok = (\<lambda>_. True),
     junk = (\<lambda>_. 0), libtiff = (\<lambda>_. Some example_tiff), libjpeg = (\<lambda>_. example_jpeg),
     tiff_encode = (\<lambda>_ _ _ _. None), jpeg_encode = (\<lambda>_ _ _ _. []), gzip = (\<lambda>b. b),
     enum_value = int, extension = 0, bitmapExtension = 0\<rparr>"

section \<open>Example environments\<close>

definition base_world :: world where
  "base_world = \<lparr>files = Map.empty, writable = (\<lambda>_. True), malloc_ok = (\<lambda>_. True),
     junk = (\<lambda>_. 0), libtiff = (\<lambda>_. None), libjpeg = (\<lambda>_. example_jpeg),
     tiff_encode = (\<lambda>_ _ _ _. None), jpeg_encode = (\<lambda>_ _ _ _. []), gzip = (\<lambda>b. b),
     enum_value = int, extension = 0, bitmapExtension = 0\<rparr>"

text \<open>
  An 8-bit BMP of width 5 and height 2 with a palette of four greys: the file header,
  the info header, the palette, then the bottom row \<open>1 2 3 1 2\<close> and the top row
  \<open>3 2 1 0 3\<close>, each padded with three bytes to a multiple of four.
\<close>

definition bmp_file :: "byte list" where
  "bmp_file =
     [0x42, 0x4D, 86, 0, 0, 0, 0, 0, 0, 0, 70, 0, 0, 0,
      40, 0, 0, 0, 5, 0, 0, 0, 2, 0, 0, 0, 1, 0, 8, 0, 0, 0, 0, 0, 16, 0, 0, 0,
      0, 0, 0, 0, 0, 0, 0, 0, 4, 0, 0, 0, 0, 0, 0, 0,
      0, 0, 0, 0, 85, 85, 85, 0, 170, 170, 170, 0, 255, 255, 255, 0,
      1, 2, 3, 1, 2, 0, 0, 0,
      3, 2, 1, 0, 3, 0, 0, 0]"

definition bmp_world :: world where
  "bmp_world = base_world\<lparr>files := [''a.bmp'' \<mapsto> bmp_file]\<rparr>"

text \<open>
  The BMP layout in the words of the specification: rows stored bottom-up, each followed
  by \<open>(4 - W mod 4) mod 4\<close> bytes of padding; the result is top-down.
\<close>

definition bmp_padding :: "nat \<Rightarrow> nat" where
  "bmp_padding W = (4 - W mod 4) mod 4"

definition bmp_bottom_up :: "nat \<Rightarrow> nat \<Rightarrow> byte list \<Rightarrow> byte list" where
  "bmp_bottom_up W H stored =
     concat (map (\<lambda>r. take W (drop ((H - 1 - r) * (W + bmp_padding W)) stored)) [0 ..< H])"

text \<open>A binary PPM of one pixel, as the only file.\<close>

definition ppm_world :: world where
  "ppm_world = base_world\<lparr>files :=
     [''a.ppm'' \<mapsto> bytes_of (''P6'' @ nl @ ''1 1'' @ nl @ ''255'' @ nl) @ [10, 20, 30]]\<rparr>"

text \<open>
  A map file whose header declares 641 x 6700417 elements (\<open>2^32 + 1\<close> of them) and
  whose body holds one element.
\<close>

definition overflow_map_file :: "byte list" where
  "overflow_map_file =
     bytes_of (map_header_text 0 641 6700417 0 0 ''a'' ''b'')
     @ [0, 0, 128, 63, 0, 0, 0, 64, 0, 0, 128, 63]"

definition map_world :: world where
  "map_world = base_world\<lparr>files := [''m.map'' \<mapsto> overflow_map_file]\<rparr>"

section \<open>The probing of extensions, in the words of the specification\<close>

text \<open>
  A name ends in a recognized image extension when its last characters are, case
  ignored, one of the seven extensions that \<^verbatim>\<open>ReadImageSize\<close> tests.
\<close>

definition ends_with :: "string \<Rightarrow> string \<Rightarrow> bool" where
  "ends_with filename ext =
     (length ext \<le> length filename
      \<and> map tolower (drop (length filename - length ext) filename) = map tolower ext)"

definition recognized :: "string \<Rightarrow> bool" where
  "recognized filename =
     (ends_with filename ''.tif'' \<or> ends_with filename ''.tiff'' \<or> ends_with filename ''.pgm''
      \<or> ends_with filename ''.ppm'' \<or> ends_with filename ''.jpg'' \<or> ends_with filename ''.jpeg''
      \<or> ends_with filename ''.bmp'')"

text \<open>
  The 14 indices in cyclic order from the cached index, and the first of them whose
  candidate name exists.
\<close>

definition cyclic_order :: "nat \<Rightarrow> nat list" where
  "cyclic_order j = map (\<lambda>i. (j + i) mod 14) [0 ..< 14]"

definition first_candidate :: "world \<Rightarrow> string \<Rightarrow> nat option" where
  "first_candidate w filename =
     find (\<lambda>k. files w (filename @ extensions ! k) \<noteq> None) (cyclic_order (extension w))"

text \<open>The reader that belongs to an extension, by the text of the extension.\<close>

definition reader_of :: "string \<Rightarrow> world \<Rightarrow> string \<Rightarrow> (byte list \<times> 32 word \<times> 32 word) result" where
  "reader_of ext =
     (let e = map tolower ext in
      if e = ''.tif'' \<or> e = ''.tiff'' then ReadTiffImage
      else if e = ''.pgm'' then ReadPgmImage
      else if e = ''.ppm'' then ReadPpmImage
      else if e = ''.jpg'' \<or> e = ''.jpeg'' then ReadJpgImage
      else ReadBmpImage)"

definition size_reader_of :: "string \<Rightarrow> world \<Rightarrow> string \<Rightarrow> (32 word \<times> 32 word) result" where
  "size_reader_of ext =
     (let e = map tolower ext in
      if e = ''.tif'' \<or> e = ''.tiff'' then ReadTiffImageSize
      else if e = ''.pgm'' then ReadPgmImageSize
      else if e = ''.ppm'' then ReadPpmImageSize
      else if e = ''.jpg'' \<or> e = ''.jpeg'' then ReadJpgImageSize
      else ReadBmpImageSize)"

text \<open>A binary PGM of one pixel under the name \<^verbatim>\<open>img.pgm\<close>, as the only file.\<close>

definition pgm_world :: world where
  "pgm_world = base_world\<lparr>files :=
     [''img.pgm'' \<mapsto> bytes_of (''P5'' @ nl @ ''1 1'' @ nl @ ''255'' @ nl) @ [7]]\<rparr>"

text \<open>A buffer of 65536 x 65536 pixels, all 0.\<close>

definition big_pixels :: "byte list" where
  "big_pixels = replicate (2 ^ 32) 0"

text \<open>
  A bitmap file of 131072 x 131072 pixels, all 0, with its complete body of \<open>2^31\<close>
  bytes, on a machine where \<^verbatim>\<open>malloc\<close> gives up to a terabyte.
\<close>

definition big_bitmap_world :: world where
  "big_bitmap_world = base_world\<lparr>malloc_ok := (\<lambda>n. n < 2 ^ 40), files :=
     [''m.pbm'' \<mapsto> bytes_of (''P4'' @ nl @ show_d 131072 @ '' '' @ show_d 131072 @ nl)
                   @ replicate (2 ^ 31) 0]\<rparr>"

text \<open>A machine where \<^verbatim>\<open>malloc\<close> gives up to a terabyte, and a map of \<open>2^31\<close> zero vertices.\<close>

definition limited_world :: world where
  "limited_world = base_world\<lparr>malloc_ok := (\<lambda>n. n < 2 ^ 40)\<rparr>"

definition big_map :: "MapElement list" where
  "big_map = replicate (2 ^ 31) \<lparr>x = 0, y = 0, c = 0\<rparr>"

text \<open>A name of \<^verbatim>\<open>PATH_MAX\<close> characters.\<close>

definition long_name :: string where
  "long_name = replicate 4096 CHR ''a''"

text \<open>
  The number that a decimal numeral denotes, for the numbers of a header: digits with
  no leading zero, after a minus sign for a negative number; \<open>None\<close> for any other text.
\<close>

definition digits_value :: "string \<Rightarrow> nat option" where
  "digits_value s =
     (if s = [] \<or> \<not> list_all (\<lambda>a. 48 \<le> (of_char a :: nat) \<and> (of_char a :: nat) \<le> 57) s
         \<or> (hd s = CHR ''0'' \<and> length s \<noteq> 1)
      then None
      else Some (foldl (\<lambda>v a. 10 * v + (of_char a - 48)) 0 s))"

definition decimal_value :: "string \<Rightarrow> int option" where
  "decimal_value s =
     (case s of
        [] \<Rightarrow> None
      | a # r \<Rightarrow>
          if a = CHR ''-'' then
            (case digits_value r of
               None \<Rightarrow> None
             | Some n \<Rightarrow> if n = 0 then None else Some (- int n))
          else map_option int (digits_value s))"





section \<open>Properties of the TIFF reader\<close>

lemma length_store: "length b \<le> length (store b off xs)"
  by (simp add: store_def)

lemma take_store:
  "off + length xs \<le> length b \<Longrightarrow> take (off + length xs) (store b off xs) = take off b @ xs"
  by (simp add: store_def)

lemma drop_store:
  "off + length xs + m \<le> length b \<Longrightarrow>
   drop (off + length xs + m) (store b off xs) = drop (off + length xs + m) b"
  by (simp add: store_def add.commute)

lemma read_strips_length:
  "read_strips n ss b off k = Inr b' \<Longrightarrow> length b \<le> length b'"
proof (induction ss arbitrary: b off k)
  case Nil
  then show ?case by simp
next
  case (Cons s ss)
  show ?case
  proof (cases s)
    case None
    with Cons.prems show ?thesis by simp
  next
    case (Some d)
    with Cons.prems
    have "read_strips n ss (store b off (take n d)) (off + length (take n d)) (Suc k) = Inr b'"
      by simp
    from Cons.IH [OF this] length_store [of b off "take n d"] show ?thesis by linarith
  qed
qed

text \<open>
  When every strip decodes and the strips fit the buffer, the strip loop leaves the
  decoded strips one after the other at the start of the buffer.
\<close>

lemma read_strips_concat:
  assumes "\<forall>s \<in> set ss. s \<noteq> None"
    and "off + length (concat (map (\<lambda>s. take n (the s)) ss)) \<le> length b"
  shows "read_strips n ss b off k =
         Inr (take off b @ concat (map (\<lambda>s. take n (the s)) ss)
              @ drop (off + length (concat (map (\<lambda>s. take n (the s)) ss))) b)"
  using assms
proof (induction ss arbitrary: b off k)
  case Nil
  then show ?case by simp
next
  case (Cons s ss)
  then obtain d where s: "s = Some d" by auto
  let ?x = "take n d"
  let ?r = "concat (map (\<lambda>s. take n (the s)) ss)"
  have fit: "off + length ?x + length ?r \<le> length b"
    using Cons.prems(2) s by simp
  have len: "length (store b off ?x) = length b"
    using fit by (simp add: store_def)
  have "read_strips n ss (store b off ?x) (off + length ?x) (Suc k) =
        Inr (take (off + length ?x) (store b off ?x) @ ?r
             @ drop (off + length ?x + length ?r) (store b off ?x))"
    using Cons.prems(1) fit len by (intro Cons.IH) auto
  moreover have "take (off + length ?x) (store b off ?x) = take off b @ ?x"
    using fit by (intro take_store) simp
  moreover have "drop (off + length ?x + length ?r) (store b off ?x)
                 = drop (off + length ?x + length ?r) b"
    using fit by (intro drop_store) simp
  ultimately show ?case using s by (simp add: add.assoc)
qed

text \<open>
  Claim C9. Whenever \<^verbatim>\<open>ReadTiffImage\<close> returns 1, the photometric tag is defined; if it
  is not min-is-black, every byte of the returned buffer is the bitwise complement of
  the byte that the strip decoder left at that place, and if it is min-is-black the
  decoded bytes are returned unchanged.
\<close>

theorem ReadTiffImage_photometric:
  assumes "ReadTiffImage w filename = Inr (b, iw, ih)"
  shows "\<exists>tif photo d. TIFFOpen w filename = Some tif \<and> photometric tif = Some photo
           \<and> decoded_strips w filename = Some d
           \<and> buffer_size tif \<le> length d \<and> length b = length d
           \<and> (photo \<noteq> PHOTOMETRIC_MINISBLACK \<longrightarrow>
                  (\<forall>i < buffer_size tif. b ! i = NOT (d ! i)))
           \<and> (photo = PHOTOMETRIC_MINISBLACK \<longrightarrow> b = d)"
proof -
  from assms obtain tif where tif: "TIFFOpen w filename = Some tif"
    by (auto simp: ReadTiffImage_def split: option.splits)
  let ?n = "buffer_size tif"
  from assms tif obtain b0 where b0: "malloc w ?n = Some b0"
    by (auto simp: ReadTiffImage_def buffer_size_def Let_def split: option.splits if_splits)
  from assms tif b0 obtain d where
    d: "read_strips (unat (strip_size tif))
          (take (nat (sint (of_nat (length (strips tif)) :: 32 word))) (strips tif)) b0 0 0 = Inr d"
    by (auto simp: ReadTiffImage_def buffer_size_def Let_def
             split: option.splits if_splits sum.splits)
  from assms tif b0 d obtain photo where photo: "photometric tif = Some photo"
    and b: "b = (if photo \<noteq> PHOTOMETRIC_MINISBLACK then flip_bits ?n d else d)"
    by (auto simp: ReadTiffImage_def buffer_size_def Let_def
             split: option.splits if_splits sum.splits)
  have dec: "decoded_strips w filename = Some d"
    using tif b0 d by (simp add: decoded_strips_def buffer_size_def Let_def)
  have "length b0 = ?n" using b0 by (auto simp: malloc_def split: if_splits)
  with read_strips_length [OF d] have n: "?n \<le> length d" by simp
  have len: "length b = length d" using b n by (simp add: flip_bits_def)
  have flip: "\<forall>i < ?n. flip_bits ?n d ! i = NOT (d ! i)"
    using n by (simp add: flip_bits_def nth_append)
  show ?thesis using tif photo dec n len b flip by auto
qed

theorem ReadTiffImage_photometric_witness:
  "ReadTiffImage tiff_world ''a.tif'' = Inr ([254, 253, 252, 251], 2, 2)
   \<and> decoded_strips tiff_world ''a.tif'' = Some [1, 2, 3, 4]
   \<and> photometric example_tiff \<noteq> Some PHOTOMETRIC_MINISBLACK
   \<and> [254, 253, 252, 251 :: byte] ! 3 = NOT ([1, 2, 3, 4] ! 3)"
proof -
  have r: "ReadTiffImage tiff_world ''a.tif'' = Inr ([254, 253, 252, 251], 2, 2)"
    by (simp add: ReadTiffImage_def TIFFOpen_def tiff_world_def example_tiff_def malloc_def
          store_def flip_bits_def PHOTOMETRIC_MINISBLACK_def upt_conv_Cons)
  have t: "TIFFOpen tiff_world ''a.tif'' = Some example_tiff"
    by (simp add: TIFFOpen_def tiff_world_def)
  have d: "decoded_strips tiff_world ''a.tif'' = Some [1, 2, 3, 4]"
    by (simp add: decoded_strips_def TIFFOpen_def tiff_world_def example_tiff_def malloc_def
          store_def upt_conv_Cons)
  have p: "photometric example_tiff = Some 0" and n: "buffer_size example_tiff = 4"
    by (simp_all add: example_tiff_def buffer_size_def)
  from ReadTiffImage_photometric [OF r] t d p n
  have "\<forall>i < 4. [254, 253, 252, 251 :: byte] ! i = NOT ([1, 2, 3, 4] ! i)"
    by (simp add: PHOTOMETRIC_MINISBLACK_def)
  then have c: "[254, 253, 252, 251 :: byte] ! 3 = NOT ([1, 2, 3, 4] ! 3)"
    by (rule allE [where x = 3]) simp
  have q: "photometric example_tiff \<noteq> Some PHOTOMETRIC_MINISBLACK"
    using p by (simp add: PHOTOMETRIC_MINISBLACK_def)
  from r d q c show ?thesis by (intro conjI)
qed

section \<open>Properties of the BMP reader\<close>

text \<open>
  Claim C2. For an 8-bit BMP of width \<open>W\<close> and height \<open>H\<close> the reader should step through
  the file with the row stride \<open>W + (4 - W mod 4) mod 4\<close> and return row \<open>H - 1 - r\<close> of the
  file as row \<open>r\<close>. On the file \<open>bmp_file\<close> of width 5 the code does not: after the five
  bytes of the bottom row it moves one byte back, and the top row of the result is the
  last pixel of the bottom row, the three padding bytes and the first pixel of the top
  row.
\<close>

theorem ReadBmpImage_width_5:
  "ReadBmpImage bmp_world ''a.bmp'' = Inr ([2, 0, 0, 0, 3, 1, 2, 3, 1, 2], 5, 2)
   \<and> bmp_bottom_up 5 2 (drop 70 bmp_file) = [3, 2, 1, 0, 3, 1, 2, 3, 1, 2]
   \<and> sint (bmp_rowsize 8 5) = 4 \<and> 5 + bmp_padding 5 = 8"
proof -
  have a: "ReadBmpImage bmp_world ''a.bmp'' = Inr ([2, 0, 0, 0, 3, 1, 2, 3, 1, 2], 5, 2)"
    by code_simp
  have b: "bmp_bottom_up 5 2 (drop 70 bmp_file) = [3, 2, 1, 0, 3, 1, 2, 3, 1, 2]"
    by (simp add: bmp_bottom_up_def bmp_padding_def bmp_file_def upt_conv_Cons)
  have c: "sint (bmp_rowsize 8 5) = 4"
    by (simp add: bmp_rowsize_def sdiv32_def)
  have d: "5 + bmp_padding 5 = 8"
    by (simp add: bmp_padding_def)
  from a b c d show ?thesis by (intro conjI)
qed

section \<open>Properties of ReadImage on a PPM name\<close>

text \<open>
  Claim C3. \<^verbatim>\<open>ReadImage\<close> on a name that ends in \<^verbatim>\<open>.ppm\<close> and names a valid binary PPM
  should return the image. The chain of extension tests of \<^verbatim>\<open>ReadImage\<close> has no case for
  \<^verbatim>\<open>.ppm\<close>, so the name is taken for a base name: with \<^verbatim>\<open>a.ppm\<close> as the only file the
  call returns 0 with the message of a missing file, while \<^verbatim>\<open>ReadImageSize\<close> and
  \<^verbatim>\<open>ReadPpmImage\<close> on the same name return 1.
\<close>

theorem ReadImage_ppm_name:
  "map_option fst (ReadImage ppm_world ''a.ppm'' (- 1) (- 1) (- 1) (- 1))
     = Some (Inl (''Cannot find image file with basename a.ppm'' @ nl))
   \<and> fst (ReadImageSize ppm_world ''a.ppm'') = Inr (1, 1)
   \<and> ReadPpmImage ppm_world ''a.ppm'' = Inr ([10], 1, 1)"
proof -
  have a: "map_option fst (ReadImage ppm_world ''a.ppm'' (- 1) (- 1) (- 1) (- 1))
             = Some (Inl (''Cannot find image file with basename a.ppm'' @ nl))"
    by code_simp
  have b: "fst (ReadImageSize ppm_world ''a.ppm'') = Inr (1, 1)"
    by code_simp
  have c: "ReadPpmImage ppm_world ''a.ppm'' = Inr ([10], 1, 1)"
    by code_simp
  from a b c show ?thesis by (intro conjI)
qed

section \<open>Properties of the map reader\<close>

text \<open>
  Claim C5. \<^verbatim>\<open>ReadMap\<close> should return 0 whenever the body of the file holds fewer
  elements than its header declares. The element count \<^verbatim>\<open>mapWidth * mapHeight\<close> is
  computed in \<^verbatim>\<open>int\<close>: for the header \<open>641 6700417\<close> it is \<open>2^32 + 1\<close>, which wraps to 1,
  and on a body of one element \<^verbatim>\<open>ReadMap\<close> returns 1 with that width and height and a
  map of one element.
\<close>

theorem ReadMap_count_overflow:
  "ReadMap map_world ''m.map'' =
     Some (Inr \<lparr>map_elements = [\<lparr>x = 0x3F800000, y = 0x40000000, c = 0x3F800000\<rparr>],
          map_level = 0, map_width = 641, map_height = 6700417, map_xMin = 0, map_yMin = 0,
          map_imageName = ''a'', map_referenceName = ''b''\<rparr>)
   \<and> sint (641 :: 32 word) * sint (6700417 :: 32 word) = 2 ^ 32 + 1"
proof -
  have a: "ReadMap map_world ''m.map'' =
     Some (Inr \<lparr>map_elements = [\<lparr>x = 0x3F800000, y = 0x40000000, c = 0x3F800000\<rparr>],
          map_level = 0, map_width = 641, map_height = 6700417, map_xMin = 0, map_yMin = 0,
          map_imageName = ''a'', map_referenceName = ''b''\<rparr>)"
    by code_simp
  have b: "sint (641 :: 32 word) * sint (6700417 :: 32 word) = 2 ^ 32 + 1"
    by simp
  from a b show ?thesis by (intro conjI)
qed

section \<open>Machine arithmetic\<close>

lemma uint_sint_nonneg: "0 \<le> sint (v :: 'a::len word) \<Longrightarrow> uint v = sint v"
proof -
  assume a: "0 \<le> sint v"
  have "sint v < 2 ^ (LENGTH('a) - 1)" by (rule sint_lt)
  also have "\<dots> \<le> (2 :: int) ^ LENGTH('a)" by (rule power_increasing) simp_all
  finally have "take_bit LENGTH('a) (sint v) = sint v"
    using a by (simp add: take_bit_int_eq_self)
  then show ?thesis by (simp add: uint_sint)
qed

lemma unat_sint_nonneg: "0 \<le> sint (v :: 'a::len word) \<Longrightarrow> unat v = nat (sint v)"
  by (simp add: unat_eq_nat_uint uint_sint_nonneg)

lemma sint_size_of_int: "sint (size_of_int v) = sint v"
  unfolding size_of_int_def by (rule sint_up_scast) (simp add: is_up)

lemma unat_size_of_int: "0 \<le> sint v \<Longrightarrow> unat (size_of_int v) = nat (sint v)"
  by (simp add: unat_sint_nonneg sint_size_of_int)

lemma unat_size_of_uint: "unat (size_of_uint v) = unat v"
proof -
  have "uint (ucast v :: 64 word) = uint v"
    by (rule uint_up_ucast) (simp add: is_up)
  then show ?thesis
    by (simp only: size_of_uint_def unat_eq_nat_uint)
qed

lemma unat_mult_64:
  "unat a * unat b < 2 ^ 64 \<Longrightarrow> unat (a * b :: 64 word) = unat a * unat b"
  using unat_mult_lem [of a b] by simp

lemma sint_less_31: "sint (v :: 32 word) < 2 ^ 31"
  using sint_lt [of v] by simp

text \<open>The size that \<^verbatim>\<open>WriteMap\<close> passes to \<^verbatim>\<open>fwrite\<close>.\<close>

lemma map_size:
  assumes "0 \<le> sint wd" "0 \<le> sint ht" "12 * (nat (sint wd) * nat (sint ht)) < 2 ^ 64"
  shows "unat (size_of_int wd * size_of_int ht * 12) = 12 * (nat (sint wd) * nat (sint ht))"
proof -
  have "nat (sint wd) * nat (sint ht) \<le> 12 * (nat (sint wd) * nat (sint ht))"
    by simp
  with assms(3) have b: "nat (sint wd) * nat (sint ht) < 2 ^ 64"
    by linarith
  have a: "unat (size_of_int wd * size_of_int ht) = nat (sint wd) * nat (sint ht)"
    using assms(1,2) b by (subst unat_mult_64) (simp_all only: unat_size_of_int)
  have "unat (size_of_int wd * size_of_int ht * 12) = unat (size_of_int wd * size_of_int ht) * unat (12 :: 64 word)"
    using assms a by (subst unat_mult_64) simp_all
  then show ?thesis using a by simp
qed

section \<open>The bytes of a map\<close>

lemma length_float_bytes: "length (float_bytes v) = 4"
  by (simp add: float_bytes_def)

lemma length_MapElement_bytes: "length (MapElement_bytes e) = 12"
  by (simp add: MapElement_bytes_def length_float_bytes)

lemma length_map_bytes: "length (map_bytes m) = 12 * length m"
  by (induction m) (simp_all add: map_bytes_def length_MapElement_bytes)

lemma map_bytes_nth:
  "k < length m \<Longrightarrow> take 12 (drop (12 * k) (map_bytes m)) = MapElement_bytes (m ! k)"
proof (induction m arbitrary: k)
  case Nil
  then show ?case by simp
next
  case (Cons e m)
  have c: "map_bytes (e # m) = MapElement_bytes e @ map_bytes m"
    by (simp add: map_bytes_def)
  show ?case
  proof (cases k)
    case 0
    then show ?thesis by (simp add: c length_MapElement_bytes)
  next
    case (Suc j)
    with Cons.prems have "j < length m" by simp
    from Cons.IH [OF this] Suc show ?thesis
      by (simp add: c length_MapElement_bytes)
  qed
qed

section \<open>Properties of the probing of extensions\<close>

lemma probe_find:
  "probe w filename i n =
   find (\<lambda>k. files w (filename @ extensions ! k) \<noteq> None)
        (map (\<lambda>i. (extension w + i) mod 14) [i ..< i + n])"
proof (induction n arbitrary: i)
  case 0
  then show ?case by simp
next
  case (Suc n)
  have "[i ..< i + Suc n] = i # [Suc i ..< Suc i + n]"
    by (simp add: upt_conv_Cons)
  then show ?case
    using Suc.IH [of "Suc i"] by (simp add: N_EXTENSIONS_def Let_def)
qed

lemma probe_first_candidate:
  "probe w filename 0 N_EXTENSIONS = first_candidate w filename"
  by (simp add: probe_find first_candidate_def cyclic_order_def N_EXTENSIONS_def)

lemma first_candidate_less:
  "first_candidate w filename = Some k \<Longrightarrow> k < 14"
  by (auto simp: first_candidate_def cyclic_order_def find_Some_iff)

lemma less_14_cases:
  "k < 14 \<Longrightarrow> k = 0 \<or> k = 1 \<or> k = 2 \<or> k = 3 \<or> k = 4 \<or> k = 5 \<or> k = 6 \<or> k = 7 \<or> k = 8
     \<or> k = 9 \<or> k = 10 \<or> k = 11 \<or> k = 12 \<or> k = Suc 12"
  for k :: nat
  by arith

lemma tolower_simps:
  "tolower CHR ''.'' = CHR ''.''"
  "tolower CHR ''t'' = CHR ''t''" "tolower CHR ''i'' = CHR ''i''" "tolower CHR ''f'' = CHR ''f''"
  "tolower CHR ''p'' = CHR ''p''" "tolower CHR ''g'' = CHR ''g''" "tolower CHR ''m'' = CHR ''m''"
  "tolower CHR ''j'' = CHR ''j''" "tolower CHR ''e'' = CHR ''e''" "tolower CHR ''b'' = CHR ''b''"
  "tolower CHR ''T'' = CHR ''t''" "tolower CHR ''I'' = CHR ''i''" "tolower CHR ''F'' = CHR ''f''"
  "tolower CHR ''P'' = CHR ''p''" "tolower CHR ''G'' = CHR ''g''" "tolower CHR ''M'' = CHR ''m''"
  "tolower CHR ''J'' = CHR ''j''" "tolower CHR ''E'' = CHR ''e''" "tolower CHR ''B'' = CHR ''b''"
  by code_simp+

lemma read_case_reader_of:
  "k < 14 \<Longrightarrow> read_case w k = reader_of (extensions ! k) w"
  by (drule less_14_cases)
     (auto simp: read_case_def reader_of_def extensions_def tolower_simps fun_eq_iff)

lemma size_case_reader_of:
  "k < 14 \<Longrightarrow> size_case w k = size_reader_of (extensions ! k) w"
  by (drule less_14_cases)
     (auto simp: size_case_def size_reader_of_def extensions_def tolower_simps fun_eq_iff)

lemma not_recognized:
  assumes "\<not> recognized filename"
  shows "\<not> (length filename > 4 \<and> strcasecmp_tail filename ''.tif'')"
    and "\<not> (length filename > 5 \<and> strcasecmp_tail filename ''.tiff'')"
    and "\<not> (length filename > 4 \<and> strcasecmp_tail filename ''.pgm'')"
    and "\<not> (length filename > 4 \<and> strcasecmp_tail filename ''.ppm'')"
    and "\<not> (length filename > 4 \<and> strcasecmp_tail filename ''.jpg'')"
    and "\<not> (length filename > 5 \<and> strcasecmp_tail filename ''.jpeg'')"
    and "\<not> (length filename > 4 \<and> strcasecmp_tail filename ''.bmp'')"
  using assms by (auto simp: recognized_def ends_with_def strcasecmp_tail_def)

lemma load_image_probing:
  assumes "filename \<noteq> []" and "\<not> recognized filename"
  shows "load_image w filename =
         (case first_candidate w filename of
            None \<Rightarrow> (Inl (''Cannot find image file with basename '' @ filename @ nl), w)
          | Some k \<Rightarrow>
              (case reader_of (extensions ! k) w (filename @ extensions ! k) of
                 Inl e \<Rightarrow> (Inl e, w)
               | Inr img \<Rightarrow> (Inr img, w\<lparr>extension := k\<rparr>)))"
proof -
  have "load_image w filename =
        (case probe w filename 0 N_EXTENSIONS of
           None \<Rightarrow> (Inl (''Cannot find image file with basename '' @ filename @ nl), w)
         | Some k \<Rightarrow>
             (case read_case w k (filename @ extensions ! k) of
                Inl e \<Rightarrow> (Inl e, w)
              | Inr img \<Rightarrow> (Inr img, w\<lparr>extension := k\<rparr>)))"
    using assms(1) not_recognized [OF assms(2)] by (auto simp add: load_image_def Let_def)
  then show ?thesis
    by (auto simp: probe_first_candidate read_case_reader_of first_candidate_less split: option.splits)
qed

text \<open>
  Claim C6, amended. For every non-empty name that does not end in a recognized image
  extension, \<^verbatim>\<open>ReadImage\<close> and \<^verbatim>\<open>ReadImageSize\<close> take the first of the 14 candidates, in
  cyclic order from the cached index, that exists; without one they return 0 with the
  message of the missing file; otherwise they call the reader of that extension on the
  candidate, and when it returns 1 they store the index in \<^verbatim>\<open>extension\<close> (\<^verbatim>\<open>ReadImage\<close> then
  goes on to the requested region).
\<close>

theorem probing_of_extensions:
  assumes "filename \<noteq> []" and "\<not> recognized filename"
  shows "ReadImage w filename minX maxX minY maxY =
           (case first_candidate w filename of
              None \<Rightarrow> Some (Inl (''Cannot find image file with basename '' @ filename @ nl), w)
            | Some k \<Rightarrow>
                (case reader_of (extensions ! k) w (filename @ extensions ! k) of
                   Inl e \<Rightarrow> Some (Inl e, w)
                 | Inr img \<Rightarrow>
                     map_option (\<lambda>r. (r, w\<lparr>extension := k\<rparr>))
                       (subregion (w\<lparr>extension := k\<rparr>) filename img minX maxX minY maxY)))
         \<and> ReadImageSize w filename =
           (case first_candidate w filename of
              None \<Rightarrow> (Inl (''Cannot find image file with basename '' @ filename @ nl), w)
            | Some k \<Rightarrow>
                (case size_reader_of (extensions ! k) w (filename @ extensions ! k) of
                   Inl e \<Rightarrow> (Inl e, w)
                 | Inr sz \<Rightarrow> (Inr sz, w\<lparr>extension := k\<rparr>)))"
proof
  show "ReadImage w filename minX maxX minY maxY =
           (case first_candidate w filename of
              None \<Rightarrow> Some (Inl (''Cannot find image file with basename '' @ filename @ nl), w)
            | Some k \<Rightarrow>
                (case reader_of (extensions ! k) w (filename @ extensions ! k) of
                   Inl e \<Rightarrow> Some (Inl e, w)
                 | Inr img \<Rightarrow>
                     map_option (\<lambda>r. (r, w\<lparr>extension := k\<rparr>))
                       (subregion (w\<lparr>extension := k\<rparr>) filename img minX maxX minY maxY)))"
    by (simp add: ReadImage_def load_image_probing [OF assms] split: option.splits sum.splits)
  have "ReadImageSize w filename =
        (case probe w filename 0 N_EXTENSIONS of
           None \<Rightarrow> (Inl (''Cannot find image file with basename '' @ filename @ nl), w)
         | Some k \<Rightarrow>
             (case size_case w k (filename @ extensions ! k) of
                Inl e \<Rightarrow> (Inl e, w)
              | Inr sz \<Rightarrow> (Inr sz, w\<lparr>extension := k\<rparr>)))"
    using assms(1) not_recognized [OF assms(2)] by (auto simp add: ReadImageSize_def Let_def)
  then show "ReadImageSize w filename =
           (case first_candidate w filename of
              None \<Rightarrow> (Inl (''Cannot find image file with basename '' @ filename @ nl), w)
            | Some k \<Rightarrow>
                (case size_reader_of (extensions ! k) w (filename @ extensions ! k) of
                   Inl e \<Rightarrow> (Inl e, w)
                 | Inr sz \<Rightarrow> (Inr sz, w\<lparr>extension := k\<rparr>)))"
    by (auto simp: probe_first_candidate size_case_reader_of first_candidate_less split: option.splits)
qed


theorem probing_of_extensions_witness:
  "first_candidate pgm_world ''img'' = Some 4
   \<and> ReadImage pgm_world ''img'' (- 1) (- 1) (- 1) (- 1)
       = Some (Inr ([7], 1, 1), pgm_world\<lparr>extension := 4\<rparr>)
   \<and> ReadImageSize pgm_world ''img'' = (Inr (1, 1), pgm_world\<lparr>extension := 4\<rparr>)"
proof -
  have n: "''img'' \<noteq> []" by simp
  have r: "\<not> recognized ''img''"
    by (simp add: recognized_def ends_with_def)
  have f: "first_candidate pgm_world ''img'' = Some 4"
    by code_simp
  have e: "extensions ! 4 = ''.pgm''"
    by (simp add: extensions_def)
  have p: "ReadPgmImage pgm_world ''img.pgm'' = Inr ([7], 1, 1)"
    by code_simp
  have q: "ReadPgmImageSize pgm_world ''img.pgm'' = Inr (1, 1)"
    by code_simp
  have s: "subregion (pgm_world\<lparr>extension := 4\<rparr>) ''img'' ([7], 1, 1) (- 1) (- 1) (- 1) (- 1)
           = Some (Inr ([7], 1, 1))"
    by (simp add: subregion_def full_image_def word_sle_eq word_sless_alt)
  from probing_of_extensions [OF n r, of pgm_world "- 1" "- 1" "- 1" "- 1"] f e p q s
  show ?thesis
    by (simp add: reader_of_def size_reader_of_def tolower_simps)
qed

text \<open>
  Claim C6 as stated holds for every name without a recognized extension, the empty one
  included. For the empty name, with no file at all, the claim gives the message of the
  missing file; the code tests the length first and gives another message.
\<close>

theorem probing_empty_name_counterexample:
  "\<not> recognized [] \<and> first_candidate base_world [] = None
   \<and> ReadImage base_world [] (- 1) (- 1) (- 1) (- 1)
       = Some (Inl (''Image filename is empty.'' @ nl), base_world)
   \<and> ReadImage base_world [] (- 1) (- 1) (- 1) (- 1)
       \<noteq> Some (Inl (''Cannot find image file with basename '' @ [] @ nl), base_world)
   \<and> fst (ReadImageSize base_world []) = Inl (''Image filename is empty.'' @ nl)"
proof -
  have a: "\<not> recognized []"
    by (simp add: recognized_def ends_with_def)
  have b: "first_candidate base_world [] = None"
    by (simp add: first_candidate_def cyclic_order_def base_world_def find_None_iff)
  have c: "ReadImage base_world [] (- 1) (- 1) (- 1) (- 1)
           = Some (Inl (''Image filename is empty.'' @ nl), base_world)"
    by (simp add: ReadImage_def load_image_def)
  have d: "ReadImage base_world [] (- 1) (- 1) (- 1) (- 1)
           \<noteq> Some (Inl (''Cannot find image file with basename '' @ [] @ nl), base_world)"
    by (simp add: c)
  have e: "fst (ReadImageSize base_world []) = Inl (''Image filename is empty.'' @ nl)"
    by (simp add: ReadImageSize_def)
  from a b c d e show ?thesis by (intro conjI)
qed

section \<open>Decimal numbers, printed and read\<close>

lemma show_nat_not_Nil: "show_nat n \<noteq> []"
  by (subst show_nat.simps) simp

lemma unat_digit_char: "m < 10 \<Longrightarrow> unat (ch (char_of (48 + m))) = 48 + m"
  for m :: nat
proof -
  assume "m < 10"
  then have a: "(of_char (char_of (48 + m)) :: nat) = 48 + m"
    by (simp add: of_char_of)
  have "unat (ch (char_of (48 + m))) = unat (of_nat (of_char (char_of (48 + m)) :: nat) :: byte)"
    by (simp only: of_nat_of_char)
  also have "\<dots> = (of_char (char_of (48 + m)) :: nat) mod 2 ^ LENGTH(8)"
    by (rule unat_of_nat)
  also have "\<dots> = 48 + m"
    using a \<open>m < 10\<close> by simp
  finally show ?thesis .
qed

lemma is_digit_char: "m < 10 \<Longrightarrow> is_digit (ch (char_of (48 + m)))"
  for m :: nat
  by (simp add: word_le_nat_alt unat_digit_char)

lemma ucast_byte: "(ucast (b :: byte) :: 32 word) = of_nat (unat b)"
  by simp

lemma digit_value: "m < 10 \<Longrightarrow> (ucast (ch (char_of (48 + m))) :: 32 word) - 48 = of_nat m"
  for m :: nat
  by (simp only: ucast_byte unat_digit_char) simp

lemma show_nat_digits: "\<forall>d \<in> set (bytes_of (show_nat n)). is_digit d"
proof (induction n rule: show_nat.induct)
  case (1 n)
  have m: "n mod 10 < 10" by simp
  show ?case
  proof (cases "n < 10")
    case True
    then show ?thesis
      using is_digit_char [OF m]
      by (subst show_nat.simps) (simp add: bytes_of_def)
  next
    case False
    then show ?thesis
      using "1.IH" is_digit_char [OF m]
      by (subst show_nat.simps) (simp add: bytes_of_def)
  qed
qed

text \<open>The value that the digit loop of \<^verbatim>\<open>ReadHeader\<close> accumulates over printed digits.\<close>

lemma foldl_show_nat_word:
  "foldl (\<lambda>a d. 10 * a + (ucast d - 48)) v (bytes_of (show_nat n))
   = v * 10 ^ length (show_nat n) + (of_nat n :: 32 word)"
proof (induction n arbitrary: v rule: show_nat.induct)
  case (1 n)
  have m: "n mod 10 < 10" by simp
  have d: "(ucast (ch (char_of (48 + n mod 10))) :: 32 word) - 48 = of_nat (n mod 10)"
    by (rule digit_value [OF m])
  show ?case
  proof (cases "n < 10")
    case True
    then have s: "show_nat n = [char_of (48 + n mod 10)]"
      by (subst show_nat.simps) simp
    show ?thesis using True d by (simp add: s bytes_of_def)
  next
    case False
    then have s: "show_nat n = show_nat (n div 10) @ [char_of (48 + n mod 10)]"
      by (subst show_nat.simps) simp
    have "(of_nat n :: 32 word) = 10 * of_nat (n div 10) + of_nat (n mod 10)"
      by (metis mult_div_mod_eq of_nat_add of_nat_mult of_nat_numeral)
    then show ?thesis
      using "1.IH" [OF False, of v] d
      by (simp add: s bytes_of_def algebra_simps)
  qed
qed

lemma read_number_digits:
  assumes "\<forall>d \<in> set ds. is_digit d" and "rest = [] \<or> \<not> is_digit (hd rest)"
  shows "read_number v b (ds @ rest) =
         (case fgetc rest of (b', f') \<Rightarrow>
            (foldl (\<lambda>a d. 10 * a + (ucast d - 48)) (10 * v + (ucast b - 48)) ds, b', f'))"
  using assms
proof (induction ds arbitrary: v b)
  case Nil
  then show ?case by (cases rest) (auto simp add: fgetc_def)
next
  case (Cons d ds)
  then show ?case by simp
qed


lemma bytes_of_append: "bytes_of (a @ b) = bytes_of a @ bytes_of b"
  by (simp add: bytes_of_def)

lemma bytes_of_nl: "bytes_of nl = [10]"
  by (simp add: bytes_of_def nl_def)

lemma header_number_show_nat:
  assumes "is_blank b" and "rest = [] \<or> \<not> is_digit (hd rest)"
  shows "header_number (Some b) (bytes_of (show_nat n) @ rest) =
         (case fgetc rest of (b', f') \<Rightarrow> Some (of_nat n, b', f'))"
proof -
  obtain d ds where ds: "bytes_of (show_nat n) = d # ds"
    using show_nat_not_Nil [of n] by (cases "bytes_of (show_nat n)") (auto simp: bytes_of_def)
  have dig: "is_digit d" and digs: "\<forall>e \<in> set ds. is_digit e"
    using show_nat_digits [of n] ds by simp_all
  have nb: "d \<noteq> ch CHR ''#''" "\<not> is_blank d"
    using dig by auto
  have "skip_blanks (Some d) (ds @ rest) = (Some d, ds @ rest)"
    using nb by (subst skip_blanks.simps) simp
  moreover have "b \<noteq> ch CHR ''#''"
    using assms(1) by auto
  ultimately have sk: "skip_blanks (Some b) (d # ds @ rest) = (Some d, ds @ rest)"
    using assms(1) by (subst skip_blanks.simps) (simp add: fgetc_def)
  have "foldl (\<lambda>a e. 10 * a + (ucast e - 48)) (10 * 0 + (ucast d - 48)) ds
        = foldl (\<lambda>a e. 10 * a + (ucast e - 48)) (0 :: 32 word) (bytes_of (show_nat n))"
    by (simp add: ds)
  also have "\<dots> = of_nat n"
    by (simp add: foldl_show_nat_word)
  finally have v: "foldl (\<lambda>a e. 10 * a + (ucast e - 48)) (10 * 0 + (ucast d - 48)) ds
                   = (of_nat n :: 32 word)" .
  show ?thesis
    using sk dig read_number_digits [OF digs assms(2), of 0 d] v
    by (simp add: header_number_def ds split: prod.splits)
qed

lemma show_d_nonneg: "0 \<le> sint v \<Longrightarrow> show_d v = show_nat (nat (sint v))"
  by (simp add: show_d_def show_int_def)

lemma of_nat_nat_sint: "0 \<le> sint v \<Longrightarrow> of_nat (nat (sint v)) = v"
  for v :: "32 word"
proof -
  assume a: "0 \<le> sint v"
  have "(of_nat (nat (sint v)) :: 32 word) = of_int (int (nat (sint v)))"
    by (simp only: of_int_of_nat_eq)
  also have "\<dots> = of_int (sint v)"
    using a by simp
  also have "\<dots> = v"
    by simp
  finally show ?thesis .
qed

lemma show_nat_255: "show_nat 255 = ''255''"
  by code_simp

lemma ReadHeader_P5:
  assumes "0 \<le> sint wd" and "0 \<le> sint ht"
  shows "ReadHeader (bytes_of (''P5'' @ nl @ show_d wd @ '' '' @ show_d ht @ nl @ ''255'' @ nl) @ body)
         = Some (ch CHR ''5'', wd, ht, body)"
proof -
  let ?W = "bytes_of (show_nat (nat (sint wd)))"
  let ?H = "bytes_of (show_nat (nat (sint ht)))"
  let ?M = "bytes_of (show_nat 255)"
  have t: "bytes_of (''P5'' @ nl @ show_d wd @ '' '' @ show_d ht @ nl @ ''255'' @ nl) @ body
           = ch CHR ''P'' # ch CHR ''5'' # 10 # ?W @ (32 # ?H @ (10 # ?M @ (10 # body)))"
    using assms by (simp add: show_d_nonneg bytes_of_append bytes_of_nl show_nat_255)
       (simp add: bytes_of_def nl_def)
  have a: "header_number (Some 10) (?W @ (32 # ?H @ (10 # ?M @ (10 # body))))
           = Some (wd, Some 32, ?H @ (10 # ?M @ (10 # body)))"
    using assms(1) by (subst header_number_show_nat) (simp_all add: fgetc_def of_nat_nat_sint)
  have b: "header_number (Some 32) (?H @ (10 # ?M @ (10 # body)))
           = Some (ht, Some 10, ?M @ (10 # body))"
    using assms(2) by (subst header_number_show_nat) (simp_all add: fgetc_def of_nat_nat_sint)
  have c: "header_number (Some 10) (?M @ (10 # body)) = Some (255, Some 10, body)"
    by (subst header_number_show_nat) (simp_all add: fgetc_def)
  show ?thesis
    unfolding t by (simp add: ReadHeader_def fgetc_def a b c)
qed

lemma ReadHeader_P4:
  assumes "0 \<le> sint wd" and "0 \<le> sint ht"
  shows "ReadHeader (bytes_of (''P4'' @ nl @ show_d wd @ '' '' @ show_d ht @ nl) @ body)
         = Some (ch CHR ''4'', wd, ht, body)"
proof -
  let ?W = "bytes_of (show_nat (nat (sint wd)))"
  let ?H = "bytes_of (show_nat (nat (sint ht)))"
  have t: "bytes_of (''P4'' @ nl @ show_d wd @ '' '' @ show_d ht @ nl) @ body
           = ch CHR ''P'' # ch CHR ''4'' # 10 # ?W @ (32 # ?H @ (10 # body))"
    using assms by (simp add: show_d_nonneg bytes_of_append bytes_of_nl)
       (simp add: bytes_of_def nl_def)
  have a: "header_number (Some 10) (?W @ (32 # ?H @ (10 # body)))
           = Some (wd, Some 32, ?H @ (10 # body))"
    using assms(1) by (subst header_number_show_nat) (simp_all add: fgetc_def of_nat_nat_sint)
  have b: "header_number (Some 32) (?H @ (10 # body)) = Some (ht, Some 10, body)"
    using assms(2) by (subst header_number_show_nat) (simp_all add: fgetc_def of_nat_nat_sint)
  show ?thesis
    unfolding t by (simp add: ReadHeader_def fgetc_def a b)
qed


section \<open>Properties of the PGM writer and reader\<close>

lemma unat_mult_32:
  "unat a * unat b < 2 ^ 32 \<Longrightarrow> unat (a * b :: 32 word) = unat a * unat b"
  using unat_mult_lem [of a b] by simp

lemma pgm_not_tif:
  assumes "strcasecmp_tail filename ''.pgm''" and "5 \<le> length filename"
  shows "\<not> strcasecmp_tail filename ''.tif''" and "\<not> strcasecmp_tail filename ''.tiff''"
proof -
  have p: "map tolower (drop (length filename - 4) filename) = ''.pgm''"
    using assms(1) by (simp add: strcasecmp_tail_def tolower_simps eval_nat_numeral)
  then show "\<not> strcasecmp_tail filename ''.tif''"
    by (simp add: strcasecmp_tail_def tolower_simps eval_nat_numeral)
  show "\<not> strcasecmp_tail filename ''.tiff''"
  proof
    assume "strcasecmp_tail filename ''.tiff''"
    then have "map tolower (drop (length filename - 5) filename) = ''.tiff''"
      by (simp add: strcasecmp_tail_def tolower_simps eval_nat_numeral)
    then have "drop 1 (map tolower (drop (length filename - 5) filename)) = ''tiff''"
      by simp
    moreover have "Suc (length filename - 5) = length filename - 4"
      using assms(2) by simp
    then have "drop 1 (map tolower (drop (length filename - 5) filename))
                   = map tolower (drop (length filename - 4) filename)"
      by (simp add: drop_map)
    ultimately show False using p by simp
  qed
qed

lemma pixel_count:
  assumes "0 \<le> sint wd" "0 \<le> sint ht" "nat (sint wd) * nat (sint ht) < 2 ^ 32"
  shows "unat (size_of_int wd * size_of_int ht) = nat (sint wd) * nat (sint ht)"
    and "unat (size_of_uint (wd * ht)) = nat (sint wd) * nat (sint ht)"
proof -
  have "nat (sint wd) * nat (sint ht) < (2 :: nat) ^ 64"
    using assms(3) by (rule less_trans) simp
  then show "unat (size_of_int wd * size_of_int ht) = nat (sint wd) * nat (sint ht)"
    using assms(1,2) by (subst unat_mult_64) (simp_all only: unat_size_of_int)
  show "unat (size_of_uint (wd * ht)) = nat (sint wd) * nat (sint ht)"
    using assms by (simp add: unat_size_of_uint unat_mult_32 unat_sint_nonneg)
qed

text \<open>
  Claim C7, amended. For every buffer of \<open>W x H\<close> pixels with \<open>W \<ge> 1\<close>, \<open>H \<ge> 1\<close> and
  \<open>W * H < 2^32\<close>, and every name of at least five characters that ends in \<^verbatim>\<open>.pgm\<close>,
  case ignored: where the file can be created and the buffer for reading allocated,
  \<^verbatim>\<open>WriteImage\<close> returns 1 and \<^verbatim>\<open>ReadPgmImage\<close> on the file written returns 1 with the
  width \<open>W\<close>, the height \<open>H\<close> and the \<open>W * H\<close> bytes that were written.
\<close>

theorem pgm_round_trip:
  assumes "5 \<le> length filename" and "strcasecmp_tail filename ''.pgm''"
    and "writable w filename"
    and "1 \<le> sint wd" and "1 \<le> sint ht"
    and "length pixels = nat (sint wd) * nat (sint ht)"
    and "length pixels < 2 ^ 32"
    and "malloc_ok w (length pixels)"
  shows "fst (WriteImage w filename pixels wd ht cm) = Inr ()
         \<and> ReadPgmImage (snd (WriteImage w filename pixels wd ht cm)) filename
             = Inr (pixels, wd, ht)"
proof -
  define header where
    "header = bytes_of (''P5'' @ nl @ show_d wd @ '' '' @ show_d ht @ nl @ ''255'' @ nl)"
  let ?n = "nat (sint wd) * nat (sint ht)"
  have pos: "0 \<le> sint wd" "0 \<le> sint ht" "0 < ?n"
    using assms(4,5) by simp_all
  have n: "unat (size_of_int wd * size_of_int ht) = ?n" "unat (size_of_uint (wd * ht)) = ?n"
    using pixel_count [OF pos(1,2)] assms(6,7) by simp_all
  have wr: "fwrite pixels ?n (Suc 0) = (pixels, Suc 0)"
    using pos(3) assms(6) by (simp add: fwrite_def)
  have W: "WriteImage w filename pixels wd ht cm
           = (Inr (), w\<lparr>files := (files w)(filename \<mapsto> header @ pixels)\<rparr>)"
    using assms(1,3) pgm_not_tif [OF assms(2,1)] assms(2)
    by (simp add: WriteImage_def Let_def n wr header_def)
  have rd: "fread (Suc 0) ?n pixels = (pixels, ?n)"
    using assms(6) by (simp add: fread_def)
  have m: "malloc (w\<lparr>files := (files w)(filename \<mapsto> header @ pixels)\<rparr>) ?n \<noteq> None"
    using assms(6,8) by (simp add: malloc_def)
  have h: "ReadHeader (header @ pixels) = Some (ch CHR ''5'', wd, ht, pixels)"
    unfolding header_def by (rule ReadHeader_P5 [OF pos(1,2)])
  have R: "ReadPgmImage (w\<lparr>files := (files w)(filename \<mapsto> header @ pixels)\<rparr>) filename
           = Inr (pixels, wd, ht)"
    using m by (auto simp add: ReadPgmImage_def h n rd)
  show ?thesis by (simp add: W R)
qed


theorem pgm_round_trip_witness:
  "fst (WriteImage base_world ''a.pgm'' [1, 2, 3, 4, 5, 6] 3 2 UncompressedImage) = Inr ()
   \<and> ReadPgmImage (snd (WriteImage base_world ''a.pgm'' [1, 2, 3, 4, 5, 6] 3 2 UncompressedImage))
         ''a.pgm'' = Inr ([1, 2, 3, 4, 5, 6], 3, 2)"
proof -
  have a: "5 \<le> length ''a.pgm''" by simp
  have b: "strcasecmp_tail ''a.pgm'' ''.pgm''"
    by (simp add: strcasecmp_tail_def)
  have c: "writable base_world ''a.pgm''" "malloc_ok base_world (length [1, 2, 3, 4, 5, 6 :: byte])"
    by (simp_all add: base_world_def)
  have d: "1 \<le> sint (3 :: 32 word)" "1 \<le> sint (2 :: 32 word)"
    by simp_all
  have e: "length [1, 2, 3, 4, 5, 6 :: byte] = nat (sint (3 :: 32 word)) * nat (sint (2 :: 32 word))"
    "length [1, 2, 3, 4, 5, 6 :: byte] < 2 ^ 32"
    by simp_all
  show ?thesis
    by (rule pgm_round_trip [OF a b c(1) d e c(2)])
qed

text \<open>
  Claim C7 as stated holds for every \<open>W x H\<close> buffer. For a buffer of no pixels
  \<^verbatim>\<open>fwrite\<close> is called with the size 0 and returns 0, and \<^verbatim>\<open>WriteImage\<close> returns 0. For a
  buffer of 65536 x 65536 pixels \<^verbatim>\<open>ReadPgmImage\<close> computes the number of bytes in
  \<^verbatim>\<open>uint32\<close>, reads none and returns 1 with an empty buffer.
\<close>

theorem pgm_round_trip_counterexample:
  "fst (WriteImage base_world ''a.pgm'' [] 0 0 UncompressedImage)
     = Inl (''Could not write to file a.pgm'' @ nl)
   \<and> length big_pixels = nat (sint (65536 :: 32 word)) * nat (sint (65536 :: 32 word))
   \<and> fst (WriteImage base_world ''a.pgm'' big_pixels 65536 65536 UncompressedImage) = Inr ()
   \<and> ReadPgmImage (snd (WriteImage base_world ''a.pgm'' big_pixels 65536 65536 UncompressedImage))
         ''a.pgm'' = Inr ([], 65536, 65536)"
proof -
  have t: "strcasecmp_tail ''a.pgm'' ''.pgm''" "\<not> strcasecmp_tail ''a.pgm'' ''.tif''"
    "\<not> strcasecmp_tail ''a.pgm'' ''.tiff''"
    by (simp_all add: strcasecmp_tail_def tolower_simps)
  have a: "fst (WriteImage base_world ''a.pgm'' [] 0 0 UncompressedImage)
           = Inl (''Could not write to file a.pgm'' @ nl)"
    using t by (simp add: WriteImage_def fwrite_def size_of_int_def base_world_def)
  have l: "length big_pixels = 2 ^ 32"
    by (simp add: big_pixels_def)
  have b: "length big_pixels = nat (sint (65536 :: 32 word)) * nat (sint (65536 :: 32 word))"
    by (simp add: l)
  define header where
    "header = bytes_of (''P5'' @ nl @ show_d 65536 @ '' '' @ show_d 65536 @ nl @ ''255'' @ nl)"
  have n: "unat (size_of_int 65536 * size_of_int 65536) = 2 ^ 32"
    by (simp add: size_of_int_def)
  have wr: "fwrite big_pixels (2 ^ 32) (Suc 0) = (big_pixels, Suc 0)"
    by (simp add: fwrite_def l)
  have W: "WriteImage base_world ''a.pgm'' big_pixels 65536 65536 UncompressedImage
           = (Inr (), base_world\<lparr>files := (files base_world)(''a.pgm'' \<mapsto> header @ big_pixels)\<rparr>)"
    using t n wr by (simp add: WriteImage_def Let_def header_def base_world_def)
  have h: "ReadHeader (header @ big_pixels) = Some (ch CHR ''5'', 65536, 65536, big_pixels)"
    unfolding header_def by (rule ReadHeader_P5) simp_all
  have z: "unat (size_of_uint 4294967296) = 0"
    by (simp add: size_of_uint_def)
  have R: "ReadPgmImage (base_world\<lparr>files := (files base_world)(''a.pgm'' \<mapsto> header @ big_pixels)\<rparr>)
             ''a.pgm'' = Inr ([], 65536, 65536)"
    by (simp add: ReadPgmImage_def h z malloc_def fread_def base_world_def)
  from a b show ?thesis by (simp add: W R)
qed

section \<open>Properties of the bitmap writer and reader\<close>

lemma strrchr_less: "strrchr s a = Some i \<Longrightarrow> i < length s"
  by (induction s arbitrary: i) (auto split: option.splits if_splits)

lemma strrchr_None: "strrchr s a = None \<longleftrightarrow> a \<notin> set s"
  by (induction s) (auto split: option.splits)

lemma strrchr_append:
  "strrchr (s @ t) a =
     (case strrchr t a of Some i \<Rightarrow> Some (length s + i) | None \<Rightarrow> strrchr s a)"
  by (induction s) (auto split: option.splits)

lemma tolower_below_a:
  assumes "tolower a = b" and "(of_char b :: nat) < 97"
  shows "a = b"
proof (cases "65 \<le> (of_char a :: nat) \<and> (of_char a :: nat) \<le> 90")
  case True
  then have "b = char_of ((of_char a :: nat) + 32)"
    using assms(1) by (simp add: tolower_def)
  then have "(of_char b :: nat) = ((of_char a :: nat) + 32) mod 256"
    by (simp only: of_char_of)
  with True assms(2) show ?thesis by simp
next
  case False
  then show ?thesis using assms(1) by (auto simp: tolower_def Let_def)
qed

lemma tolower_letter:
  assumes "tolower a = b" and "97 \<le> (of_char b :: nat)"
  shows "a \<noteq> CHR ''.''" and "a \<noteq> CHR ''/''"
  using assms by (auto simp: tolower_def)

text \<open>A name that ends in \<^verbatim>\<open>.pbm\<close> has its last dot after every slash.\<close>

lemma pbm_name:
  assumes "ends_with filename ''.pbm''"
  shows "\<not> (strrchr filename CHR ''.'' = None
            \<or> strrchr filename CHR ''/'' \<noteq> None
              \<and> the (strrchr filename CHR ''.'') < the (strrchr filename CHR ''/''))"
    and "strcasecmp_tail filename ''.pbm''" and "1 \<le> length filename"
proof -
  have len: "4 \<le> length filename"
    and t: "map tolower (drop (length filename - 4) filename) = ''.pbm''"
    using assms by (simp_all add: ends_with_def tolower_simps eval_nat_numeral)
  define pre where "pre = take (length filename - 4) filename"
  define suf where "suf = drop (length filename - 4) filename"
  have f: "filename = pre @ suf" by (simp add: pre_def suf_def)
  have "length suf = 4" using len by (simp add: suf_def)
  then obtain d p q r where suf: "suf = [d, p, q, r]"
    by (auto simp: length_Suc_conv eval_nat_numeral)
  have l: "tolower d = CHR ''.''" "tolower p = CHR ''p''" "tolower q = CHR ''b''" "tolower r = CHR ''m''"
    using t by (simp_all add: suf_def [symmetric] suf)
  have d: "d = CHR ''.''"
    by (rule tolower_below_a [OF l(1)]) simp
  have n: "p \<noteq> CHR ''.''" "p \<noteq> CHR ''/''" "q \<noteq> CHR ''.''" "q \<noteq> CHR ''/''"
    "r \<noteq> CHR ''.''" "r \<noteq> CHR ''/''"
    using tolower_letter [OF l(2)] tolower_letter [OF l(3)] tolower_letter [OF l(4)] by simp_all
  have dot: "strrchr filename CHR ''.'' = Some (length pre)"
    using n by (simp add: f suf d strrchr_append)
  have "strrchr suf CHR ''/'' = None"
    using n by (simp add: suf d)
  then have slash: "strrchr filename CHR ''/'' = strrchr pre CHR ''/''"
    by (simp add: f strrchr_append)
  show "\<not> (strrchr filename CHR ''.'' = None
            \<or> strrchr filename CHR ''/'' \<noteq> None
              \<and> the (strrchr filename CHR ''.'') < the (strrchr filename CHR ''/''))"
    using strrchr_less [of pre "CHR ''/''"] by (auto simp: dot slash)
  show "strcasecmp_tail filename ''.pbm''"
    using assms by (simp add: ends_with_def strcasecmp_tail_def)
  show "1 \<le> length filename" using len by simp
qed

lemma sint_bytes_per_line:
  assumes "0 \<le> sint wd" and "sint wd \<le> 2 ^ 31 - 8"
  shows "sint (bytes_per_line wd) = (sint wd + 7) div 8"
proof -
  have "sint (wd + 7) = signed_take_bit 31 (sint wd + 7)"
    by (simp add: sint_word_add)
  also have "\<dots> = sint wd + 7"
    using assms by (intro signed_take_bit_int_eq_self) simp_all
  finally show ?thesis
    by (simp add: bytes_per_line_def sint_signed_drop_bit_eq drop_bit_int_def)
qed


lemma bitmap_size:
  assumes "0 \<le> sint wd" and "sint wd \<le> 2 ^ 31 - 8" and "0 \<le> sint ht"
  shows "unat (size_of_int (bytes_per_line wd) * size_of_int ht)
         = nat (sint ht) * ((nat (sint wd) + 7) div 8)"
proof -
  have b: "sint (bytes_per_line wd) = (sint wd + 7) div 8"
    by (rule sint_bytes_per_line [OF assms(1,2)])
  have c: "nat ((sint wd + 7) div 8) = (nat (sint wd) + 7) div 8"
    using assms(1) by (simp add: nat_div_distrib nat_add_distrib)
  have "0 \<le> sint (bytes_per_line wd)"
    using assms(1) by (simp add: b)
  then have u: "unat (size_of_int (bytes_per_line wd)) = (nat (sint wd) + 7) div 8"
    by (simp add: unat_size_of_int b c)
  have "(nat (sint wd) + 7) div 8 < 2 ^ 31" "nat (sint ht) < 2 ^ 31"
    using sint_less_31 [of wd] sint_less_31 [of ht] assms(1,3) by simp_all
  then have "(nat (sint wd) + 7) div 8 * nat (sint ht) < 2 ^ 31 * 2 ^ 31"
    by (intro mult_strict_mono) simp_all
  then have "(nat (sint wd) + 7) div 8 * nat (sint ht) < 2 ^ 64"
    by simp
  then show ?thesis
    using assms(3) by (subst unat_mult_64) (simp_all add: u unat_size_of_int)
qed

lemma bitmap_size_int:
  assumes "0 \<le> sint wd" and "sint wd \<le> 2 ^ 31 - 8" and "0 \<le> sint ht"
    and "nat (sint ht) * ((nat (sint wd) + 7) div 8) < 2 ^ 31"
  shows "unat (size_of_int (ht * bytes_per_line wd))
         = nat (sint ht) * ((nat (sint wd) + 7) div 8)"
proof -
  define H where "H = nat (sint ht)"
  define L where "L = (nat (sint wd) + 7) div 8"
  have h: "sint ht = int H"
    using assms(3) by (simp add: H_def)
  have "sint wd + 7 = int (nat (sint wd) + 7)"
    using assms(1) by simp
  then have "(sint wd + 7) div 8 = int (nat (sint wd) + 7) div int 8"
    by simp
  also have "\<dots> = int L"
    by (simp only: L_def zdiv_int)
  finally have b: "sint (bytes_per_line wd) = int L"
    by (simp add: sint_bytes_per_line [OF assms(1,2)])
  have "H * L < 2 ^ 31"
    using assms(4) by (simp add: H_def L_def)
  then have "int (H * L) < 2 ^ 31"
    by (metis of_nat_less_iff of_nat_numeral of_nat_power)
  moreover have "- (2 ^ 31) \<le> int H * int L"
    by (rule order_trans [of _ 0]) simp_all
  ultimately have "signed_take_bit 31 (int H * int L) = int H * int L"
    by (intro signed_take_bit_int_eq_self) simp_all
  then have s: "sint (ht * bytes_per_line wd) = int (H * L)"
    by (simp add: sint_word_mult h b)
  have "unat (size_of_int (ht * bytes_per_line wd)) = nat (sint (ht * bytes_per_line wd))"
    by (rule unat_size_of_int) (simp only: s of_nat_0_le_iff)
  also have "\<dots> = H * L"
    by (simp only: s nat_int)
  finally show ?thesis by (simp add: H_def L_def)
qed

lemma WriteBitmap_malloc_ok:
  "malloc_ok (snd (WriteBitmap w filename bitmap wd ht)) = malloc_ok w"
  by (simp add: WriteBitmap_def Let_def split: prod.splits)

text \<open>
  Claim C8, amended. On a name that ends in \<^verbatim>\<open>.pbm\<close>, for a bitmap of width \<open>W\<close> and height \<open>H\<close>,
  \<^verbatim>\<open>WriteBitmap\<close> writes \<^verbatim>\<open>P4\<close>, the dimensions, and then the first \<open>H * ((W + 7) div 8)\<close>
  bytes of the bitmap: rows of \<open>(W + 7) div 8\<close> bytes, the pixel \<open>x\<close> of a row under the
  mask \<^verbatim>\<open>0x80 >> (x & 7)\<close> of byte \<open>x div 8\<close>, as in memory. \<^verbatim>\<open>ReadPbmBitmap\<close> on a file
  whose header \<^verbatim>\<open>ReadHeader\<close> accepts as \<^verbatim>\<open>P4\<close> of these dimensions returns exactly the
  \<open>H * ((W + 7) div 8)\<close> bytes after the header, and returns 0 when the file holds fewer.
  This holds for \<open>0 \<le> W \<le> 2^31 - 8\<close> and \<open>H \<ge> 0\<close>, and for reading where
  \<open>H * ((W + 7) div 8) < 2^31\<close> and the buffer can be allocated.
\<close>

theorem bitmap_write_read:
  assumes "0 \<le> sint wd" and "sint wd \<le> 2 ^ 31 - 8" and "0 \<le> sint ht"
  shows "(ends_with filename ''.pbm'' \<and> writable w filename \<longrightarrow>
            files (snd (WriteBitmap w filename bitmap wd ht)) filename
              = Some (bytes_of (''P4'' @ nl @ show_d wd @ '' '' @ show_d ht @ nl)
                      @ take (nat (sint ht) * ((nat (sint wd) + 7) div 8)) bitmap)
            \<and> (\<forall>i j. i < nat (sint wd) \<and> j < nat (sint ht) \<longrightarrow>
                  bitmap_pixel (take (nat (sint ht) * ((nat (sint wd) + 7) div 8)) bitmap)
                    ((nat (sint wd) + 7) div 8) i j
                  = bitmap_pixel bitmap ((nat (sint wd) + 7) div 8) i j))
         \<and> (files w filename = Some contents
            \<and> ReadHeader contents = Some (ch CHR ''4'', wd, ht, body)
            \<and> nat (sint ht) * ((nat (sint wd) + 7) div 8) < 2 ^ 31
            \<and> malloc_ok w (nat (sint ht) * ((nat (sint wd) + 7) div 8)) \<longrightarrow>
            ReadPbmBitmap w filename =
              (if length body < nat (sint ht) * ((nat (sint wd) + 7) div 8)
               then Inl (''Image file '' @ filename @ '' apparently truncated.'' @ nl)
               else Inr (take (nat (sint ht) * ((nat (sint wd) + 7) div 8)) body, wd, ht)))"
proof (intro conjI impI allI)
  let ?ibpl = "(nat (sint wd) + 7) div 8"
  let ?n = "nat (sint ht) * ?ibpl"
  define header where "header = bytes_of (''P4'' @ nl @ show_d wd @ '' '' @ show_d ht @ nl)"
  {
    assume a: "ends_with filename ''.pbm'' \<and> writable w filename"
    have wr: "fst (fwrite bitmap ?n (Suc 0)) = take ?n bitmap"
      by (simp add: fwrite_def)
    have ne: "filename \<noteq> []"
      using a pbm_name(3) [of filename] by auto
    have full: "(if strrchr filename CHR ''.'' = None
                   \<or> strrchr filename CHR ''/'' \<noteq> None
                     \<and> the (strrchr filename CHR ''.'') < the (strrchr filename CHR ''/'')
                 then filename @ ''.pbm'' else filename) = filename"
      using a by (intro if_not_P pbm_name(1)) simp
    have "files (snd (WriteBitmap w filename bitmap wd ht)) filename
          = Some (header @ fst (fwrite bitmap ?n (Suc 0)))"
      unfolding WriteBitmap_def Let_def full
      using a pbm_name(2) [of filename] ne
      by (simp add: bitmap_size [OF assms] header_def split: prod.splits)
    then show "files (snd (WriteBitmap w filename bitmap wd ht)) filename
          = Some (bytes_of (''P4'' @ nl @ show_d wd @ '' '' @ show_d ht @ nl) @ take ?n bitmap)"
      by (simp only: wr header_def)
  }
  {
    fix i j
    assume "i < nat (sint wd) \<and> j < nat (sint ht)"
    then have i: "i div 8 < ?ibpl" and j: "Suc j \<le> nat (sint ht)"
      by auto
    have "j * ?ibpl + i div 8 < Suc j * ?ibpl"
      using i by simp
    also have "\<dots> \<le> ?n"
      using j by (intro mult_le_mono1)
    finally show "bitmap_pixel (take ?n bitmap) ?ibpl i j = bitmap_pixel bitmap ?ibpl i j"
      by (simp add: bitmap_pixel_def)
  }
  {
    assume a: "files w filename = Some contents
            \<and> ReadHeader contents = Some (ch CHR ''4'', wd, ht, body)
            \<and> ?n < 2 ^ 31 \<and> malloc_ok w ?n"
    then have s: "unat (size_of_int (ht * bytes_per_line wd)) = ?n"
      using bitmap_size_int [OF assms] by simp
    have rd: "fread (Suc 0) ?n body = (take ?n body, min (length body) ?n)"
      by (simp add: fread_def)
    show "ReadPbmBitmap w filename =
              (if length body < ?n
               then Inl (''Image file '' @ filename @ '' apparently truncated.'' @ nl)
               else Inr (take ?n body, wd, ht))"
      using a by (auto simp add: ReadPbmBitmap_def Let_def s rd malloc_def)
  }
qed


theorem bitmap_write_read_witness:
  "files (snd (WriteBitmap base_world ''m.pbm'' [160, 64] 3 2)) ''m.pbm''
     = Some (bytes_of (''P4'' @ nl @ show_d 3 @ '' '' @ show_d 2 @ nl) @ [160, 64])
   \<and> ReadPbmBitmap (snd (WriteBitmap base_world ''m.pbm'' [160, 64] 3 2)) ''m.pbm''
     = Inr ([160, 64], 3, 2)"
proof -
  let ?w = "snd (WriteBitmap base_world ''m.pbm'' [160, 64] 3 2)"
  let ?header = "bytes_of (''P4'' @ nl @ show_d 3 @ '' '' @ show_d 2 @ nl)"
  have r: "(0 :: int) \<le> sint (3 :: 32 word)" "sint (3 :: 32 word) \<le> 2 ^ 31 - 8"
    "(0 :: int) \<le> sint (2 :: 32 word)"
    by simp_all
  have e: "ends_with ''m.pbm'' ''.pbm'' \<and> writable base_world ''m.pbm''"
    by (simp add: ends_with_def base_world_def)
  have n: "nat (sint (2 :: 32 word)) * ((nat (sint (3 :: 32 word)) + 7) div 8) = 2"
    by simp
  note t1 = bitmap_write_read [OF r, where filename = "''m.pbm''" and w = base_world
      and bitmap = "[160, 64]"]
  note t2 = bitmap_write_read [OF r, where filename = "''m.pbm''" and w = ?w
      and contents = "?header @ [160, 64]" and body = "[160, 64]"]
  from t1 e have a: "files ?w ''m.pbm'' = Some (?header @ [160, 64])"
    by (simp only: n) simp
  have h: "ReadHeader (?header @ [160, 64]) = Some (ch CHR ''4'', 3, 2, [160, 64])"
    by (rule ReadHeader_P4) simp_all
  have m: "malloc_ok ?w 2"
    by (simp only: WriteBitmap_malloc_ok) (simp add: base_world_def)
  from t2 a h m have b: "ReadPbmBitmap ?w ''m.pbm'' = Inr ([160, 64], 3, 2)"
    by (simp only: n) simp
  from a b show ?thesis by (intro conjI)
qed


text \<open>
  Claim C8 as stated holds for every width and height. \<^verbatim>\<open>ReadPbmBitmap\<close> computes the
  number of bytes \<^verbatim>\<open>ih * ibpl\<close> in \<^verbatim>\<open>int\<close>: for 131072 x 131072 pixels it is \<open>2^31\<close>, which
  wraps to a negative number, the request to \<^verbatim>\<open>malloc\<close> is \<open>2^64 - 2^31\<close> bytes, and the call
  returns 0 on a file that holds every byte of the bitmap.
\<close>

theorem bitmap_read_counterexample:
  "ReadPbmBitmap big_bitmap_world ''m.pbm''
     = Inl (''Could not allocate enough memory for image in file m.pbm'' @ nl)
   \<and> files big_bitmap_world ''m.pbm''
     = Some (bytes_of (''P4'' @ nl @ show_d 131072 @ '' '' @ show_d 131072 @ nl)
             @ replicate (2 ^ 31) 0)
   \<and> length (replicate (2 ^ 31) (0 :: byte))
     = nat (sint (131072 :: 32 word)) * ((nat (sint (131072 :: 32 word)) + 7) div 8)
   \<and> show_d 131072 = ''131072''"
proof -
  define body where "body = replicate (2 ^ 31) (0 :: byte)"
  define header where
    "header = bytes_of (''P4'' @ nl @ show_d 131072 @ '' '' @ show_d 131072 @ nl)"
  have f: "files big_bitmap_world ''m.pbm'' = Some (header @ body)"
    by (simp add: big_bitmap_world_def header_def body_def)
  have h: "ReadHeader (header @ body) = Some (ch CHR ''4'', 131072, 131072, body)"
    unfolding header_def by (rule ReadHeader_P4) simp_all
  have b: "bytes_per_line 131072 = 16384"
    by code_simp
  have n: "unat (size_of_int 2147483648) = 18446744071562067968"
    by code_simp
  have m: "malloc big_bitmap_world 18446744071562067968 = None"
    by (simp add: malloc_def big_bitmap_world_def)
  have a: "ReadPbmBitmap big_bitmap_world ''m.pbm''
           = Inl (''Could not allocate enough memory for image in file m.pbm'' @ nl)"
    using m by (simp add: ReadPbmBitmap_def f h b n)
  have c: "length (replicate (2 ^ 31) (0 :: byte))
           = nat (sint (131072 :: 32 word)) * ((nat (sint (131072 :: 32 word)) + 7) div 8)"
    by simp
  have d: "show_d 131072 = ''131072''"
    by code_simp
  from a f c d show ?thesis
    by (simp only: header_def body_def)
qed

section \<open>Properties of the map writer and reader\<close>

lemma unat_ch: "unat (ch a) = (of_char a :: nat)"
proof -
  have "unat (ch a) = unat (of_nat (of_char a :: nat) :: byte)"
    by (simp only: of_nat_of_char)
  also have "\<dots> = (of_char a :: nat) mod 2 ^ LENGTH(8)"
    by (rule unat_of_nat)
  also have "\<dots> = of_char a"
    using nat_of_char_less_256 [of a] by simp
  finally show ?thesis .
qed

lemma string_of_bytes_of: "string_of (bytes_of s) = s"
  by (simp add: string_of_def bytes_of_def unat_ch map_idI)

lemma float_round_trip: "float_of_bytes (float_bytes v) = v"
proof -
  define n where "n = unat v"
  define k1 where "k1 = n div 256"
  define k2 where "k2 = k1 div 256"
  define k3 where "k3 = k2 div 256"
  have b: "unat (of_nat (k mod 256) :: byte) = k mod 256" for k :: nat
    by (simp add: unat_of_nat)
  have "n < 2 ^ 32"
    unfolding n_def using unsigned_less [of v] by simp
  then have "k3 < 256"
    unfolding k3_def k2_def k1_def by (simp add: div_mult2_eq less_mult_imp_div_less)
  then have m: "k3 mod 256 = k3"
    by simp
  have e: "n div 65536 = k2" "n div 16777216 = k3"
    unfolding k3_def k2_def k1_def by (simp_all add: div_mult2_eq)
  have u: "[0 ..< 4] = [0, 1, 2, 3 :: nat]"
    by code_simp
  have "le_nat (float_bytes v)
        = n mod 256 + 256 * (k1 mod 256 + 256 * (k2 mod 256 + 256 * (k3 mod 256)))"
    by (simp add: le_nat_def float_bytes_def u b n_def [symmetric] k1_def [symmetric] e)
  also have "\<dots> = n mod 256 + 256 * (k1 mod 256 + 256 * (k2 mod 256 + 256 * (k2 div 256)))"
    by (simp only: m) (simp only: k3_def)
  also have "\<dots> = n mod 256 + 256 * (k1 mod 256 + 256 * k2)"
    by (simp only: mod_mult_div_eq)
  also have "\<dots> = n mod 256 + 256 * k1"
    by (simp only: k2_def mod_mult_div_eq)
  also have "\<dots> = n"
    by (simp only: k1_def mod_mult_div_eq)
  finally show ?thesis
    by (simp add: float_of_bytes_def n_def)
qed

lemma map_of_bytes_Nil: "map_of_bytes [] = []"
  by (simp add: map_of_bytes.simps)

lemma map_of_bytes_element:
  "map_of_bytes (MapElement_bytes e @ bs) = e # map_of_bytes bs"
proof -
  have l: "length (float_bytes v) = 4" for v
    by (rule length_float_bytes)
  show ?thesis
    by (subst map_of_bytes.simps)
      (simp add: MapElement_bytes_def l float_round_trip)
qed

lemma map_round_trip_elements: "map_of_bytes (map_bytes m) = m"
proof (induction m)
  case Nil
  show ?case
    by (simp add: map_bytes_def map_of_bytes_Nil)
next
  case (Cons e m)
  have "map_bytes (e # m) = MapElement_bytes e @ map_bytes m"
    by (simp add: map_bytes_def)
  with Cons show ?case
    by (simp add: map_of_bytes_element)
qed


text \<open>The value that \<^verbatim>\<open>%d\<close> accumulates over printed digits.\<close>

lemma foldl_show_nat:
  "foldl (\<lambda>a d. 10 * a + (unat d - 48)) v (bytes_of (show_nat n))
   = v * 10 ^ length (show_nat n) + n"
proof (induction n arbitrary: v rule: show_nat.induct)
  case (1 n)
  have m: "n mod 10 < 10" by simp
  have d: "unat (ch (char_of (48 + n mod 10))) - 48 = n mod 10"
    by (simp add: unat_digit_char [OF m])
  show ?case
  proof (cases "n < 10")
    case True
    then have s: "show_nat n = [char_of (48 + n mod 10)]"
      by (subst show_nat.simps) simp
    show ?thesis using True d by (simp add: s bytes_of_def)
  next
    case False
    then have s: "show_nat n = show_nat (n div 10) @ [char_of (48 + n mod 10)]"
      by (subst show_nat.simps) simp
    have "n = 10 * (n div 10) + n mod 10"
      by simp
    then show ?thesis
      using "1.IH" [OF False, of v] d
      by (simp add: s bytes_of_def algebra_simps)
  qed
qed

lemma scan_digits_digits:
  assumes "\<forall>d \<in> set ds. is_digit d" and "rest = [] \<or> \<not> is_digit (hd rest)"
  shows "scan_digits v (ds @ rest) = (foldl (\<lambda>a d. 10 * a + (unat d - 48)) v ds, rest)"
  using assms
proof (induction ds arbitrary: v)
  case Nil
  then show ?case by (cases rest) auto
next
  case (Cons d ds)
  then show ?case by simp
qed

lemma scan_digits_show_nat:
  assumes "rest = [] \<or> \<not> is_digit (hd rest)"
  shows "scan_digits 0 (bytes_of (show_nat n) @ rest) = (n, rest)"
  by (simp add: scan_digits_digits [OF show_nat_digits assms] foldl_show_nat)

lemma isspace_not_digit: "isspace b \<Longrightarrow> \<not> is_digit b"
  by (auto simp add: isspace_def word_le_nat_alt)

lemma dropWhile_spaces:
  assumes "\<forall>b \<in> set sp. isspace b" and "f = [] \<or> \<not> isspace (hd f)"
  shows "dropWhile isspace (sp @ f) = f"
proof -
  have "dropWhile isspace f = f"
    using assms(2) by (cases f) auto
  with assms(1) show ?thesis
    by (simp add: dropWhile_append)
qed

lemma hd_show_nat: "is_digit (hd (bytes_of (show_nat n)))"
  using show_nat_digits [of n] show_nat_not_Nil [of n]
  by (cases "show_nat n") (simp_all add: bytes_of_def)

lemma strtol_value_int:
  "n \<le> 2 ^ 31 \<Longrightarrow> strtol_value neg n = (if neg then - int n else int n)"
proof -
  assume "n \<le> 2 ^ 31"
  moreover have "(2 :: nat) ^ 31 < 2 ^ 63 - 1"
    by simp
  ultimately have "n < 2 ^ 63 - 1"
    by (rule le_less_trans)
  then show ?thesis
    by (simp add: strtol_value_def)
qed

lemma scan_d_show_d:
  assumes "\<forall>b \<in> set sp. isspace b" and "rest = [] \<or> \<not> is_digit (hd rest)"
  shows "scan_d (sp @ bytes_of (show_d v) @ rest) = Some (v, rest)"
proof (cases "sint v < 0")
  case False
  define ds where "ds = bytes_of (show_nat (nat (sint v)))"
  have s: "bytes_of (show_d v) = ds"
    using False by (simp add: show_d_nonneg ds_def)
  obtain d ds' where c: "ds = d # ds'"
    using show_nat_not_Nil [of "nat (sint v)"] by (cases ds) (auto simp add: ds_def bytes_of_def)
  have dg: "is_digit d"
    using hd_show_nat [of "nat (sint v)"] by (simp add: ds_def [symmetric] c)
  then have ns: "\<not> isspace d"
    using isspace_not_digit by blast
  have sg: "d \<noteq> ch CHR ''-''" "d \<noteq> ch CHR ''+''"
    using dg by auto
  have dr: "dropWhile isspace (sp @ ds @ rest) = ds @ rest"
    by (rule dropWhile_spaces [OF assms(1)]) (simp add: c ns)
  have sc: "scan_digits 0 (ds @ rest) = (nat (sint v), rest)"
    unfolding ds_def by (rule scan_digits_show_nat [OF assms(2)])
  have "nat (sint v) \<le> 2 ^ 31"
    using sint_less_31 [of v] by simp
  then have "strtol_value False (nat (sint v)) = sint v"
    using False by (simp add: strtol_value_int)
  then have v: "word_of_int (strtol_value False (nat (sint v))) = v"
    by simp
  have "scan_d (sp @ ds @ rest) = Some (v, rest)"
    unfolding scan_d_def dr Let_def using sc dg sg by (simp add: c v)
  then show ?thesis
    by (simp only: s)
next
  case True
  define ds where "ds = bytes_of (show_nat (nat (- sint v)))"
  have s: "bytes_of (show_d v) = ch CHR ''-'' # ds"
    using True by (simp add: show_d_def show_int_def ds_def bytes_of_def)
  obtain d ds' where c: "ds = d # ds'"
    using show_nat_not_Nil [of "nat (- sint v)"] by (cases ds) (auto simp add: ds_def bytes_of_def)
  have dg: "is_digit d"
    using hd_show_nat [of "nat (- sint v)"] by (simp add: ds_def [symmetric] c)
  have ns: "\<not> isspace (ch CHR ''-'')"
    by (simp add: isspace_def)
  have dr: "dropWhile isspace (sp @ (ch CHR ''-'' # ds) @ rest) = (ch CHR ''-'' # ds) @ rest"
    using ns by (intro dropWhile_spaces [OF assms(1)]) simp
  have sc: "scan_digits 0 (ds @ rest) = (nat (- sint v), rest)"
    unfolding ds_def by (rule scan_digits_show_nat [OF assms(2)])
  have "- (2 ^ 31) \<le> sint v"
    using sint_ge [of v] by simp
  then have "nat (- sint v) \<le> 2 ^ 31"
    by simp
  then have "strtol_value True (nat (- sint v)) = sint v"
    using True by (simp add: strtol_value_int)
  then have v: "word_of_int (strtol_value True (nat (- sint v))) = v"
    by simp
  have "scan_d (sp @ (ch CHR ''-'' # ds) @ rest) = Some (v, rest)"
    unfolding scan_d_def dr Let_def using sc dg by (simp add: c v)
  then show ?thesis
    by (simp only: s)
qed

lemma scan_s_name:
  assumes "\<forall>b \<in> set sp. isspace b" and "name \<noteq> []"
    and "\<forall>a \<in> set name. \<not> isspace (ch a)" and "isspace b"
  shows "scan_s cap (sp @ bytes_of name @ b # rest)
         = (if cap \<le> length name then Overrun else Converted (bytes_of name, b # rest))"
proof -
  define f where "f = bytes_of name @ b # rest"
  have n: "\<forall>d \<in> set (bytes_of name). \<not> isspace d"
    using assms(3) by (simp add: bytes_of_def)
  have h: "\<not> isspace (hd f)"
    using assms(2) n by (cases name) (simp_all add: f_def bytes_of_def)
  have dr: "dropWhile isspace (sp @ f) = f"
    by (rule dropWhile_spaces [OF assms(1)]) (simp add: h)
  have t: "takeWhile (\<lambda>b. \<not> isspace b) f = bytes_of name"
    unfolding f_def using n assms(4) by (simp add: takeWhile_tail)
  have d: "dropWhile (\<lambda>b. \<not> isspace b) f = b # rest"
    unfolding f_def using n assms(4) by (simp add: dropWhile_append)
  have e: "bytes_of name \<noteq> []" "length (bytes_of name) = length name"
    using assms(2) by (simp_all add: bytes_of_def)
  show ?thesis
    unfolding scan_s_def f_def [symmetric] dr Let_def t d
    using e by auto
qed

lemma ch_NUL: "ch a = 0 \<Longrightarrow> a = CHR 0x00"
proof -
  assume "ch a = 0"
  then have "unat (ch a) = 0"
    by simp
  then have "(of_char a :: nat) = 0"
    by (simp only: unat_ch)
  then have "char_of (of_char a :: nat) = char_of (0 :: nat)"
    by simp
  moreover have "char_of (0 :: nat) = CHR 0x00"
    by code_simp
  ultimately show ?thesis
    by simp
qed

lemma strcpy_bytes_of: "CHR 0x00 \<notin> set name \<Longrightarrow> strcpy (bytes_of name) = name"
proof -
  assume a: "CHR 0x00 \<notin> set name"
  have "\<forall>b \<in> set (bytes_of name). b \<noteq> 0"
    using a ch_NUL by (auto simp add: bytes_of_def)
  then have t: "takeWhile (\<lambda>b. b \<noteq> 0) (bytes_of name) = bytes_of name"
    by (simp add: takeWhile_eq_all_conv)
  show ?thesis
    by (simp only: strcpy_def t string_of_bytes_of)
qed

lemma bytes_of_Cons: "bytes_of (a # s) = ch a # bytes_of s"
  by (simp add: bytes_of_def)

lemma map_header_text_parse:
  assumes "imgName \<noteq> []" and "refName \<noteq> []"
    and "\<forall>a \<in> set imgName. \<not> isspace (ch a)" and "\<forall>a \<in> set refName. \<not> isspace (ch a)"
  shows "map_header (bytes_of (map_header_text lv wd ht xm ym imgName refName) @ body)
         = (if PATH_MAX \<le> length imgName \<or> PATH_MAX \<le> length refName then Overrun
            else Converted (lv, wd, ht, xm, ym, bytes_of imgName, bytes_of refName, body))"
proof -
  define R7 where "R7 = 10 # body"
  define R6 where "R6 = 32 # bytes_of refName @ R7"
  define R5 where "R5 = 10 # bytes_of imgName @ R6"
  define R4 where "R4 = 32 # bytes_of (show_d ym) @ R5"
  define R3 where "R3 = 10 # bytes_of (show_d xm) @ R4"
  define R2 where "R2 = 32 # bytes_of (show_d ht) @ R3"
  define R1 where "R1 = 10 # bytes_of (show_d wd) @ R2"
  define R0 where "R0 = bytes_of (show_d lv) @ R1"
  have e: "bytes_of (map_header_text lv wd ht xm ym imgName refName) @ body
           = 77 # 49 # 10 # R0"
    by (simp add: map_header_text_def bytes_of_append bytes_of_Cons bytes_of_nl
        R0_def R1_def R2_def R3_def R4_def R5_def R6_def R7_def)
  have sp: "\<forall>b \<in> set [10 :: byte]. isspace b" "\<forall>b \<in> set [32 :: byte]. isspace b"
    "\<forall>b \<in> set ([] :: byte list). isspace b" "isspace 10" "isspace 32"
    by (simp_all add: isspace_def)
  have nd: "R1 = [] \<or> \<not> is_digit (hd R1)" "R2 = [] \<or> \<not> is_digit (hd R2)"
    "R3 = [] \<or> \<not> is_digit (hd R3)" "R4 = [] \<or> \<not> is_digit (hd R4)"
    "R5 = [] \<or> \<not> is_digit (hd R5)"
    by (simp_all add: R1_def R2_def R3_def R4_def R5_def)
  have s1: "scan_d R0 = Some (lv, R1)"
    using scan_d_show_d [OF sp(3) nd(1), of lv] by (simp add: R0_def)
  have s2: "scan_d R1 = Some (wd, R2)"
    using scan_d_show_d [OF sp(1) nd(2), of wd] by (simp add: R1_def)
  have s3: "scan_d R2 = Some (ht, R3)"
    using scan_d_show_d [OF sp(2) nd(3), of ht] by (simp add: R2_def)
  have s4: "scan_d R3 = Some (xm, R4)"
    using scan_d_show_d [OF sp(1) nd(4), of xm] by (simp add: R3_def)
  have s5: "scan_d R4 = Some (ym, R5)"
    using scan_d_show_d [OF sp(2) nd(5), of ym] by (simp add: R4_def)
  have s6: "scan_s PATH_MAX R5
            = (if PATH_MAX \<le> length imgName then Overrun else Converted (bytes_of imgName, R6))"
    using scan_s_name [OF sp(1) assms(1,3) sp(5), of PATH_MAX "bytes_of refName @ R7"]
    by (simp add: R5_def R6_def)
  have s7: "scan_s PATH_MAX R6
            = (if PATH_MAX \<le> length refName then Overrun else Converted (bytes_of refName, R7))"
    using scan_s_name [OF sp(2) assms(2,4) sp(4), of PATH_MAX body]
    by (simp add: R6_def R7_def)
  have s8: "scan_names R5
            = (if PATH_MAX \<le> length imgName \<or> PATH_MAX \<le> length refName then Overrun
               else Converted (bytes_of imgName, bytes_of refName, R7))"
    by (simp add: scan_names_def s6 s7)
  have g: "fgetc R7 = (Some 10, body)"
    by (simp add: fgetc_def R7_def)
  have "map_header (77 # 49 # 10 # R0)
        = (if PATH_MAX \<le> length imgName \<or> PATH_MAX \<le> length refName then Overrun
           else Converted (lv, wd, ht, xm, ym, bytes_of imgName, bytes_of refName, body))"
    by (simp add: map_header_def fgetc_def [of "_ # _"] s1 s2 s3 s4 s5 s8 g)
  then show ?thesis
    by (simp only: e)
qed

lemma element_count:
  assumes "0 \<le> sint wd" and "0 \<le> sint ht" and "nat (sint wd) * nat (sint ht) < 2 ^ 31"
  shows "unat (size_of_int (wd * ht)) = nat (sint wd) * nat (sint ht)"
proof -
  define W where "W = nat (sint wd)"
  define H where "H = nat (sint ht)"
  have h: "sint wd = int W" "sint ht = int H"
    using assms(1,2) by (simp_all add: W_def H_def)
  have "W * H < 2 ^ 31"
    using assms(3) by (simp add: W_def H_def)
  then have "int (W * H) < 2 ^ 31"
    by (metis of_nat_less_iff of_nat_numeral of_nat_power)
  moreover have "- (2 ^ 31) \<le> int W * int H"
    by (rule order_trans [of _ 0]) simp_all
  ultimately have "signed_take_bit 31 (int W * int H) = int W * int H"
    by (intro signed_take_bit_int_eq_self) simp_all
  then have s: "sint (wd * ht) = int (W * H)"
    by (simp add: sint_word_mult h)
  have "unat (size_of_int (wd * ht)) = nat (sint (wd * ht))"
    by (rule unat_size_of_int) (simp only: s of_nat_0_le_iff)
  also have "\<dots> = W * H"
    by (simp only: s nat_int)
  finally show ?thesis by (simp add: W_def H_def)
qed

lemma element_bytes:
  assumes "0 \<le> sint wd" and "0 \<le> sint ht" and "nat (sint wd) * nat (sint ht) < 2 ^ 31"
  shows "unat (size_of_int (wd * ht) * 12) = 12 * (nat (sint wd) * nat (sint ht))"
proof -
  let ?n = "nat (sint wd) * nat (sint ht)"
  have n: "unat (size_of_int (wd * ht)) = ?n"
    by (rule element_count [OF assms])
  have "?n * 12 < 2 ^ 31 * 12"
    using assms(3) by (simp add: mult.commute)
  then have "unat (size_of_int (wd * ht)) * unat (12 :: 64 word) < 2 ^ 64"
    by (simp add: n)
  then have "unat (size_of_int (wd * ht) * 12) = unat (size_of_int (wd * ht)) * unat (12 :: 64 word)"
    by (rule unat_mult_64)
  then show ?thesis
    by (simp add: n)
qed

lemma map_bytes_Cons: "map_bytes (e # m) = MapElement_bytes e @ map_bytes m"
  by (simp add: map_bytes_def)

lemma take_map_bytes: "take (12 * n) (map_bytes m) = map_bytes (take n m)"
proof (induction m arbitrary: n)
  case Nil
  show ?case by (simp add: map_bytes_def)
next
  case (Cons e m)
  show ?case
  proof (cases n)
    case 0
    then show ?thesis by (simp add: map_bytes_def)
  next
    case (Suc k)
    then show ?thesis
      using Cons.IH [of k] by (simp add: map_bytes_Cons length_MapElement_bytes)
  qed
qed

text \<open>
  What \<^verbatim>\<open>WriteMap\<close> does with the uncompressed method on a file that it can create, the
  memory at \<^verbatim>\<open>map\<close> holding the elements \<open>m\<close>, of which the array is the first
  \<open>width * height\<close>.
\<close>

lemma WriteMap_file:
  assumes "writable w filename" and "0 \<le> sint wd" and "0 \<le> sint ht"
    and "nat (sint wd) * nat (sint ht) \<le> length m"
    and "12 * (nat (sint wd) * nat (sint ht)) < 2 ^ 64"
  shows "WriteMap w filename m lv wd ht xm ym imgName refName UncompressedMap
         = (if nat (sint wd) * nat (sint ht) = 0
            then Inl (''Could not write to file '' @ filename @ nl) else Inr (),
            w\<lparr>files := (files w)(filename \<mapsto>
                 bytes_of (map_header_text lv wd ht xm ym imgName refName)
                 @ map_bytes (take (nat (sint wd) * nat (sint ht)) m))\<rparr>)"
proof -
  let ?n = "nat (sint wd) * nat (sint ht)"
  have ws: "unat (size_of_int wd * size_of_int ht * 12) = 12 * ?n"
    by (rule map_size [OF assms(2,3,5)])
  have e: "map_bytes [] = []"
    by (simp add: map_bytes_def)
  have wr: "fwrite (map_bytes m) (12 * ?n) (Suc 0)
            = (map_bytes (take ?n m), if ?n = 0 then 0 else Suc 0)"
  proof (cases "?n = 0")
    case True
    have "fwrite (map_bytes m) (12 * 0) (Suc 0) = (map_bytes (take 0 m), 0)"
      by (simp add: fwrite_def e)
    then show ?thesis
      by (simp only: True) simp
  next
    case False
    have "take (12 * ?n) (map_bytes m) = map_bytes (take ?n m)"
      by (rule take_map_bytes)
    then show ?thesis
      using False by (simp add: fwrite_def)
  qed
  show ?thesis
    using assms(1) by (simp add: WriteMap_def Let_def ws wr)
qed

text \<open>
  Claim C1, amended. For every map of \<open>mw x mh\<close> vertices with \<open>mw \<ge> 1\<close>, \<open>mh \<ge> 1\<close> and
  \<open>mw * mh < 2^31\<close>, whose image and reference names are non-empty C strings of fewer
  than \<^verbatim>\<open>PATH_MAX\<close> characters that contain no white space: where the file can be created
  and the array for reading allocated, \<^verbatim>\<open>WriteMap\<close> with the uncompressed method returns
  1, and \<^verbatim>\<open>ReadMap\<close> on the file written returns 1 with the same level, width, height,
  \<open>xMin\<close>, \<open>yMin\<close> and names, and with the \<open>mw * mh\<close> vertices that were written, bit for
  bit. The memory at \<^verbatim>\<open>map\<close> holds the elements \<open>m\<close>, of which the map is the first
  \<open>mw * mh\<close>.
\<close>

theorem map_round_trip:
  assumes "writable w filename"
    and "malloc_ok w (12 * (nat (sint wd) * nat (sint ht)))"
    and "1 \<le> sint wd" and "1 \<le> sint ht"
    and "nat (sint wd) * nat (sint ht) < 2 ^ 31"
    and "nat (sint wd) * nat (sint ht) \<le> length m"
    and "imgName \<noteq> []" and "refName \<noteq> []"
    and "\<forall>a \<in> set imgName. \<not> isspace (ch a)" and "\<forall>a \<in> set refName. \<not> isspace (ch a)"
    and "CHR 0x00 \<notin> set imgName" and "CHR 0x00 \<notin> set refName"
    and "length imgName < PATH_MAX" and "length refName < PATH_MAX"
  shows "fst (WriteMap w filename m lv wd ht xm ym imgName refName UncompressedMap) = Inr ()
         \<and> ReadMap (snd (WriteMap w filename m lv wd ht xm ym imgName refName UncompressedMap))
              filename
             = Some (Inr \<lparr>map_elements = take (nat (sint wd) * nat (sint ht)) m,
                          map_level = lv, map_width = wd, map_height = ht,
                          map_xMin = xm, map_yMin = ym, map_imageName = imgName,
                          map_referenceName = refName\<rparr>)"
proof -
  let ?n = "nat (sint wd) * nat (sint ht)"
  define header where "header = bytes_of (map_header_text lv wd ht xm ym imgName refName)"
  define body where "body = map_bytes (take ?n m)"
  let ?w = "w\<lparr>files := (files w)(filename \<mapsto> header @ body)\<rparr>"
  have pos: "0 \<le> sint wd" "0 \<le> sint ht" "0 < ?n"
    using assms(3,4) by simp_all
  have "12 * ?n < 12 * 2 ^ 31"
    using assms(5) by (simp add: mult.commute)
  then have f: "12 * ?n < 2 ^ 64"
    by simp
  have W: "WriteMap w filename m lv wd ht xm ym imgName refName UncompressedMap = (Inr (), ?w)"
    using WriteMap_file [OF assms(1) pos(1,2) assms(6) f, of lv xm ym imgName refName] pos(3)
    by (simp add: header_def body_def)
  have l: "length body = 12 * ?n"
    using assms(6) by (simp add: body_def length_map_bytes)
  have h: "map_header (header @ body)
           = Converted (lv, wd, ht, xm, ym, bytes_of imgName, bytes_of refName, body)"
    unfolding header_def
    using map_header_text_parse [OF assms(7,8,9,10), of lv wd ht xm ym body] assms(13,14)
    by simp
  have n: "unat (size_of_int (wd * ht)) = ?n"
    by (rule element_count [OF pos(1,2) assms(5)])
  have b: "unat (size_of_int (wd * ht) * 12) = 12 * ?n"
    by (rule element_bytes [OF pos(1,2) assms(5)])
  have ma: "malloc ?w (12 * ?n) \<noteq> None"
    using assms(2) by (simp add: malloc_def)
  have rd: "fread 12 ?n body = (body, ?n)"
    using l by (simp add: fread_def)
  have el: "map_of_bytes body = take ?n m"
    by (simp add: body_def map_round_trip_elements)
  have nm: "strcpy (bytes_of imgName) = imgName" "strcpy (bytes_of refName) = refName"
    using assms(11,12) by (simp_all add: strcpy_bytes_of)
  have R: "ReadMap ?w filename
           = Some (Inr \<lparr>map_elements = take ?n m, map_level = lv, map_width = wd,
                        map_height = ht, map_xMin = xm, map_yMin = ym,
                        map_imageName = imgName, map_referenceName = refName\<rparr>)"
    using ma by (auto simp add: ReadMap_def h n b rd el nm)
  show ?thesis by (simp add: W R)
qed

lemma length_big_map: "length big_map = 2 ^ 31"
  by (simp add: big_map_def)

theorem map_round_trip_witness:
  "fst (WriteMap base_world ''a.map''
          [\<lparr>x = 1065353216, y = 0, c = 3212836864\<rparr>, \<lparr>x = 1, y = 2139095040, c = 4294967295\<rparr>]
          3 2 1 (- 1) 5 ''img'' ''ref'' UncompressedMap) = Inr ()
   \<and> ReadMap (snd (WriteMap base_world ''a.map''
          [\<lparr>x = 1065353216, y = 0, c = 3212836864\<rparr>, \<lparr>x = 1, y = 2139095040, c = 4294967295\<rparr>]
          3 2 1 (- 1) 5 ''img'' ''ref'' UncompressedMap)) ''a.map''
       = Some (Inr \<lparr>map_elements =
                [\<lparr>x = 1065353216, y = 0, c = 3212836864\<rparr>, \<lparr>x = 1, y = 2139095040, c = 4294967295\<rparr>],
              map_level = 3, map_width = 2, map_height = 1, map_xMin = - 1, map_yMin = 5,
              map_imageName = ''img'', map_referenceName = ''ref''\<rparr>)"
proof -
  let ?m = "[\<lparr>x = 1065353216, y = 0, c = 3212836864\<rparr>, \<lparr>x = 1, y = 2139095040, c = 4294967295\<rparr>]"
  have a: "writable base_world ''a.map''"
    "malloc_ok base_world (12 * (nat (sint (2 :: 32 word)) * nat (sint (1 :: 32 word))))"
    by (simp_all add: base_world_def)
  have d: "1 \<le> sint (2 :: 32 word)" "1 \<le> sint (1 :: 32 word)"
    by simp_all
  have e: "nat (sint (2 :: 32 word)) * nat (sint (1 :: 32 word)) < 2 ^ 31"
    "nat (sint (2 :: 32 word)) * nat (sint (1 :: 32 word)) \<le> length ?m"
    by simp_all
  have n: "''img'' \<noteq> []" "''ref'' \<noteq> []"
    by simp_all
  have s: "\<forall>a \<in> set ''img''. \<not> isspace (ch a)" "\<forall>a \<in> set ''ref''. \<not> isspace (ch a)"
    by (simp_all add: isspace_def)
  have z: "CHR 0x00 \<notin> set ''img''" "CHR 0x00 \<notin> set ''ref''"
    by simp_all
  have p: "length ''img'' < PATH_MAX" "length ''ref'' < PATH_MAX"
    by (simp_all add: PATH_MAX_def)
  from map_round_trip [OF a d e n s z p, of 3 "- 1" 5]
  show ?thesis
    by simp
qed

text \<open>
  Claim C1 as stated holds for every map and all names without white space. For a map
  of no vertices \<^verbatim>\<open>fwrite\<close> is called with the size 0 and returns 0, and \<^verbatim>\<open>WriteMap\<close>
  returns 0. For a map of 65536 x 32768 vertices \<^verbatim>\<open>ReadMap\<close> computes the number of
  vertices in \<^verbatim>\<open>int\<close>, where it is negative, asks \<^verbatim>\<open>malloc\<close> for \<open>2^64 - 12 * 2^31\<close> bytes
  and returns 0. For an image name of \<^verbatim>\<open>PATH_MAX\<close> characters \<^verbatim>\<open>ReadMap\<close> writes beyond its
  array \<^verbatim>\<open>imgName\<close>.
\<close>

theorem map_round_trip_counterexample:
  "fst (WriteMap limited_world ''a.map'' [] 0 0 0 0 0 ''i'' ''r'' UncompressedMap)
     = Inl (''Could not write to file a.map'' @ nl)
   \<and> length big_map = nat (sint (65536 :: 32 word)) * nat (sint (32768 :: 32 word))
   \<and> fst (WriteMap limited_world ''a.map'' big_map 0 65536 32768 0 0 ''i'' ''r''
            UncompressedMap) = Inr ()
   \<and> ReadMap (snd (WriteMap limited_world ''a.map'' big_map 0 65536 32768 0 0
                     ''i'' ''r'' UncompressedMap)) ''a.map''
       = Some (Inl (''Could not allocate space for map a.map'' @ nl))
   \<and> length long_name = PATH_MAX
   \<and> fst (WriteMap limited_world ''a.map'' [\<lparr>x = 0, y = 0, c = 0\<rparr>] 0 1 1 0 0 long_name ''r''
            UncompressedMap) = Inr ()
   \<and> ReadMap (snd (WriteMap limited_world ''a.map'' [\<lparr>x = 0, y = 0, c = 0\<rparr>] 0 1 1 0 0
                     long_name ''r'' UncompressedMap)) ''a.map'' = None"
proof -
  have wt: "writable limited_world ''a.map''"
    by (simp add: limited_world_def base_world_def)
  have a: "fst (WriteMap limited_world ''a.map'' [] 0 0 0 0 0 ''i'' ''r'' UncompressedMap)
           = Inl (''Could not write to file a.map'' @ nl)"
    using WriteMap_file [OF wt, of 0 0 "[]" 0 0 0 "''i''" "''r''"] by simp
  have b: "length big_map
           = nat (sint (65536 :: 32 word)) * nat (sint (32768 :: 32 word))"
    by (simp add: length_big_map)
  define header where "header = bytes_of (map_header_text 0 65536 32768 0 0 ''i'' ''r'')"
  define body where
    "body = map_bytes (take (nat (sint (65536 :: 32 word)) * nat (sint (32768 :: 32 word))) big_map)"
  let ?w = "limited_world\<lparr>files := (files limited_world)(''a.map'' \<mapsto> header @ body)\<rparr>"
  have W: "WriteMap limited_world ''a.map'' big_map 0 65536 32768 0 0 ''i'' ''r''
             UncompressedMap = (Inr (), ?w)"
    unfolding header_def body_def
    using WriteMap_file [OF wt, of 65536 32768 big_map 0 0 0 "''i''" "''r''"]
    by (simp add: length_big_map)
  have s: "\<forall>a \<in> set ''i''. \<not> isspace (ch a)" "\<forall>a \<in> set ''r''. \<not> isspace (ch a)"
    by (simp_all add: isspace_def)
  have h: "map_header (header @ body)
           = Converted (0, 65536, 32768, 0, 0, bytes_of ''i'', bytes_of ''r'', body)"
    unfolding header_def
    using map_header_text_parse [OF _ _ s, of 0 65536 32768 0 0 body]
    by (simp add: PATH_MAX_def)
  have z: "unat (size_of_int 2147483648 * 12) = 18446744047939747840"
    by code_simp
  have ma: "malloc ?w 18446744047939747840 = None"
    by (simp add: malloc_def limited_world_def base_world_def)
  have R: "ReadMap ?w ''a.map'' = Some (Inl (''Could not allocate space for map a.map'' @ nl))"
    by (simp add: ReadMap_def h z ma)
  have c: "fst (WriteMap limited_world ''a.map'' big_map 0 65536 32768 0 0 ''i'' ''r''
                  UncompressedMap) = Inr ()"
    by (simp only: W fst_conv)
  have d: "ReadMap (snd (WriteMap limited_world ''a.map'' big_map 0 65536 32768 0 0
                           ''i'' ''r'' UncompressedMap)) ''a.map''
           = Some (Inl (''Could not allocate space for map a.map'' @ nl))"
    by (simp only: W snd_conv R)
  have e: "length long_name = PATH_MAX"
    by (simp add: long_name_def PATH_MAX_def)
  define header' where "header' = bytes_of (map_header_text 0 1 1 0 0 long_name ''r'')"
  define body' where
    "body' = map_bytes (take (nat (sint (1 :: 32 word)) * nat (sint (1 :: 32 word)))
                        [\<lparr>x = 0, y = 0, c = 0\<rparr>])"
  let ?w' = "limited_world\<lparr>files := (files limited_world)(''a.map'' \<mapsto> header' @ body')\<rparr>"
  have W': "WriteMap limited_world ''a.map'' [\<lparr>x = 0, y = 0, c = 0\<rparr>] 0 1 1 0 0 long_name ''r''
              UncompressedMap = (Inr (), ?w')"
    unfolding header'_def body'_def
    using WriteMap_file [OF wt, of 1 1 "[\<lparr>x = 0, y = 0, c = 0\<rparr>]" 0 0 0 long_name "''r''"]
    by simp
  have s': "\<forall>a \<in> set long_name. \<not> isspace (ch a)"
    by (simp add: long_name_def isspace_def)
  have n': "long_name \<noteq> []"
    by (simp add: long_name_def)
  have h': "map_header (header' @ body') = Overrun"
    unfolding header'_def
    using map_header_text_parse [OF n' _ s' s(2), of 0 1 1 0 0 body'] e
    by simp
  have R': "ReadMap ?w' ''a.map'' = None"
    by (simp add: ReadMap_def h')
  have f: "fst (WriteMap limited_world ''a.map'' [\<lparr>x = 0, y = 0, c = 0\<rparr>] 0 1 1 0 0 long_name ''r''
                  UncompressedMap) = Inr ()"
    by (simp only: W' fst_conv)
  have g: "ReadMap (snd (WriteMap limited_world ''a.map'' [\<lparr>x = 0, y = 0, c = 0\<rparr>] 0 1 1 0 0
                           long_name ''r'' UncompressedMap)) ''a.map'' = None"
    by (simp only: W' snd_conv R')
  from a b c d e f g show ?thesis
    by (intro conjI)
qed

section \<open>Properties of the map writer\<close>

lemma float_bytes_little_endian:
  "float_bytes v = map (\<lambda>i. ucast (drop_bit (8 * i) v)) [0 ..< 4]"
proof -
  have "(of_nat (unat v div 256 ^ i mod 256) :: byte) = ucast (drop_bit (8 * i) v)" for i
  proof -
    have p: "(256 :: nat) ^ i = 2 ^ (8 * i)"
      by (simp add: power_mult)
    have "unat (of_nat (unat v div 256 ^ i mod 256) :: byte) = unat v div 256 ^ i mod 256"
      by (simp add: unat_of_nat)
    moreover have "unat (ucast (drop_bit (8 * i) v) :: byte) = unat v div 2 ^ (8 * i) mod 256"
    proof -
      have "unat (ucast (drop_bit (8 * i) v) :: byte)
            = take_bit LENGTH(8) (unat (drop_bit (8 * i) v))"
        by (rule unsigned_ucast_eq)
      also have "\<dots> = unat (drop_bit (8 * i) v) mod 256"
        by (simp only: take_bit_eq_mod) simp
      also have "unat (drop_bit (8 * i) v) = unat v div 2 ^ (8 * i)"
        by (simp only: unat_drop_bit_eq) (simp only: drop_bit_eq_div)
      finally show ?thesis .
    qed
    ultimately show ?thesis
      by (simp only: word_unat_eq_iff p)
  qed
  then show ?thesis
    by (simp add: float_bytes_def)
qed

lemma map_bytes_little_endian:
  "map_bytes m
   = concat (map (\<lambda>e. concat (map (\<lambda>v. map (\<lambda>i. ucast (drop_bit (8 * i) v)) [0 ..< 4])
                                 [x e, y e, c e])) m)"
proof -
  have "MapElement_bytes
        = (\<lambda>e. concat (map (\<lambda>v. map (\<lambda>i. ucast (drop_bit (8 * i) v)) [0 ..< 4])
                            [x e, y e, c e]))"
    by (rule ext) (simp add: MapElement_bytes_def float_bytes_little_endian)
  then show ?thesis
    by (simp only: map_bytes_def)
qed

lemma show_nat_less_10: "n < 10 \<Longrightarrow> show_nat n = [char_of (48 + n)]"
  by (subst show_nat.simps) simp

lemma show_nat_ge_10:
  "10 \<le> n \<Longrightarrow> show_nat n = show_nat (n div 10) @ [char_of (48 + n mod 10)]"
  by (subst show_nat.simps) simp

lemma of_char_digit: "m < 10 \<Longrightarrow> (of_char (char_of (48 + m)) :: nat) = 48 + m"
  for m :: nat
  by (simp add: of_char_of)

lemma hd_show_nat_not_0: "0 < n \<Longrightarrow> hd (show_nat n) \<noteq> CHR ''0''"
proof (induction n rule: show_nat.induct)
  case (1 n)
  show ?case
  proof (cases "n < 10")
    case True
    have "char_of (48 + n) \<noteq> CHR ''0''"
    proof
      assume e: "char_of (48 + n) = CHR ''0''"
      have "(of_char (char_of (48 + n)) :: nat) = 48 + n"
        using True by (rule of_char_digit)
      then have "(of_char CHR ''0'' :: nat) = 48 + n"
        by (simp only: e)
      then show False
        using "1.prems" by simp
    qed
    then show ?thesis
      using True by (simp add: show_nat_less_10)
  next
    case False
    then have "0 < n div 10"
      by simp
    with "1.IH" False have "hd (show_nat (n div 10)) \<noteq> CHR ''0''"
      by simp
    then show ?thesis
      using False show_nat_not_Nil [of "n div 10"] by (simp add: show_nat_ge_10)
  qed
qed

lemma show_nat_chars:
  "list_all (\<lambda>a. 48 \<le> (of_char a :: nat) \<and> (of_char a :: nat) \<le> 57) (show_nat n)"
proof (induction n rule: show_nat.induct)
  case (1 n)
  have m: "n mod 10 < 10" by simp
  show ?case
  proof (cases "n < 10")
    case True
    then show ?thesis
      by (simp add: show_nat_less_10 of_char_digit)
  next
    case False
    then show ?thesis
      using "1.IH" of_char_digit [OF m] by (simp add: show_nat_ge_10)
  qed
qed

lemma foldl_show_nat_chars:
  "foldl (\<lambda>v a. 10 * v + ((of_char a :: nat) - 48)) 0 (show_nat n) = n"
proof -
  have "foldl (\<lambda>v a. 10 * v + ((of_char a :: nat) - 48)) 0 (show_nat n)
        = foldl (\<lambda>a d. 10 * a + (unat d - 48)) 0 (bytes_of (show_nat n))"
    by (simp add: bytes_of_def foldl_map unat_ch)
  then show ?thesis
    by (simp add: foldl_show_nat)
qed

lemma digits_value_show_nat: "digits_value (show_nat n) = Some n"
proof -
  have "hd (show_nat n) = CHR ''0'' \<Longrightarrow> length (show_nat n) = 1"
    using hd_show_nat_not_0 [of n] by (cases "n = 0") (auto simp add: show_nat_less_10)
  then show ?thesis
    using show_nat_not_Nil [of n] show_nat_chars [of n]
    by (auto simp add: digits_value_def foldl_show_nat_chars)
qed

lemma decimal_value_show_d: "decimal_value (show_d v) = Some (sint v)"
proof (cases "sint v < 0")
  case True
  then show ?thesis
    by (simp add: show_d_def show_int_def decimal_value_def digits_value_show_nat)
next
  case False
  obtain a r where s: "show_nat (nat (sint v)) = a # r"
    using show_nat_not_Nil [of "nat (sint v)"] by (cases "show_nat (nat (sint v))") auto
  have "48 \<le> (of_char a :: nat)"
    using show_nat_chars [of "nat (sint v)"] by (simp add: s)
  then have "a \<noteq> CHR ''-''"
    by auto
  then have "decimal_value (a # r) = map_option int (digits_value (a # r))"
    by (simp add: decimal_value_def)
  then show ?thesis
    using False by (simp add: show_d_def show_int_def s [symmetric] digits_value_show_nat)
qed


text \<open>
  Claim C4. With the uncompressed method and a file that can be created, the file that
  \<^verbatim>\<open>WriteMap\<close> writes is the text \<^verbatim>\<open>M1\<close>, newline, the level, newline, width, space,
  height, newline, xMin, space, yMin, newline, imageName, space, referenceName, newline,
  each number as the decimal numeral of its value, followed at once by
  \<open>width * height * 12\<close> bytes: for each of the first \<open>width * height\<close> elements at \<^verbatim>\<open>map\<close>,
  in the order of the array, the four bytes of \<open>x\<close>, of \<open>y\<close> and of \<open>c\<close>, each with the
  least significant byte first. The memory at \<^verbatim>\<open>map\<close> holds the elements \<open>m\<close>, at least
  \<open>width * height\<close> of them. \<^verbatim>\<open>WriteMap\<close> returns 1 unless there is no element: then it has
  written the header, \<^verbatim>\<open>fwrite\<close> of the size 0 returns 0, and \<^verbatim>\<open>WriteMap\<close> returns 0.
\<close>

theorem WriteMap_layout:
  assumes "writable w filename"
    and "0 \<le> sint wd" and "0 \<le> sint ht"
    and "nat (sint wd) * nat (sint ht) \<le> length m"
    and "12 * (nat (sint wd) * nat (sint ht)) < 2 ^ 64"
  shows "\<exists>body.
           files (snd (WriteMap w filename m lv wd ht xm ym imgName refName UncompressedMap))
             filename
             = Some (bytes_of (''M1'' @ nl @ show_d lv @ nl @ show_d wd @ '' '' @ show_d ht @ nl
                               @ show_d xm @ '' '' @ show_d ym @ nl
                               @ imgName @ '' '' @ refName @ nl) @ body)
           \<and> body = concat (map (\<lambda>e. concat (map (\<lambda>v. map (\<lambda>i. ucast (drop_bit (8 * i) v))
                                                           [0 ..< 4])
                                                  [x e, y e, c e]))
                                (take (nat (sint wd) * nat (sint ht)) m))
           \<and> length body = nat (sint wd) * nat (sint ht) * 12
           \<and> map decimal_value [show_d lv, show_d wd, show_d ht, show_d xm, show_d ym]
               = [Some (sint lv), Some (sint wd), Some (sint ht), Some (sint xm), Some (sint ym)]
           \<and> fst (WriteMap w filename m lv wd ht xm ym imgName refName UncompressedMap)
               = (if nat (sint wd) * nat (sint ht) = 0
                  then Inl (''Could not write to file '' @ filename @ nl) else Inr ())"
proof -
  let ?n = "nat (sint wd) * nat (sint ht)"
  define body where "body = map_bytes (take ?n m)"
  have W: "WriteMap w filename m lv wd ht xm ym imgName refName UncompressedMap
           = (if ?n = 0 then Inl (''Could not write to file '' @ filename @ nl) else Inr (),
              w\<lparr>files := (files w)(filename \<mapsto>
                   bytes_of (map_header_text lv wd ht xm ym imgName refName) @ body)\<rparr>)"
    unfolding body_def by (rule WriteMap_file [OF assms])
  have a: "files (snd (WriteMap w filename m lv wd ht xm ym imgName refName UncompressedMap))
             filename
           = Some (bytes_of (''M1'' @ nl @ show_d lv @ nl @ show_d wd @ '' '' @ show_d ht @ nl
                             @ show_d xm @ '' '' @ show_d ym @ nl
                             @ imgName @ '' '' @ refName @ nl) @ body)"
    by (simp add: W map_header_text_def)
  have b: "body = concat (map (\<lambda>e. concat (map (\<lambda>v. map (\<lambda>i. ucast (drop_bit (8 * i) v))
                                                         [0 ..< 4])
                                                [x e, y e, c e]))
                              (take ?n m))"
    unfolding body_def by (rule map_bytes_little_endian)
  have l: "length body = ?n * 12"
    using assms(4) by (simp add: body_def length_map_bytes)
  have d: "map decimal_value [show_d lv, show_d wd, show_d ht, show_d xm, show_d ym]
           = [Some (sint lv), Some (sint wd), Some (sint ht), Some (sint xm), Some (sint ym)]"
    by (simp add: decimal_value_show_d)
  have r: "fst (WriteMap w filename m lv wd ht xm ym imgName refName UncompressedMap)
           = (if ?n = 0 then Inl (''Could not write to file '' @ filename @ nl) else Inr ())"
    by (simp only: W fst_conv)
  from a b l d r show ?thesis
    by (intro exI [of _ body] conjI)
qed

theorem WriteMap_layout_witness:
  "files (snd (WriteMap base_world ''m.map''
                 [\<lparr>x = 0x3F800000, y = 0x40000000, c = 0xBF800000\<rparr>,
                  \<lparr>x = 1, y = 0x01020304, c = 0xFFFFFFFF\<rparr>, \<lparr>x = 7, y = 7, c = 7\<rparr>]
                 3 2 1 (- 1) 5 ''img'' ''ref'' UncompressedMap)) ''m.map''
     = Some [77, 49, 10, 51, 10, 50, 32, 49, 10, 45, 49, 32, 53, 10,
             105, 109, 103, 32, 114, 101, 102, 10,
             0, 0, 128, 63, 0, 0, 0, 64, 0, 0, 128, 191,
             1, 0, 0, 0, 4, 3, 2, 1, 255, 255, 255, 255]
   \<and> fst (WriteMap base_world ''m.map''
            [\<lparr>x = 0x3F800000, y = 0x40000000, c = 0xBF800000\<rparr>,
             \<lparr>x = 1, y = 0x01020304, c = 0xFFFFFFFF\<rparr>, \<lparr>x = 7, y = 7, c = 7\<rparr>]
            3 2 1 (- 1) 5 ''img'' ''ref'' UncompressedMap) = Inr ()"
proof -
  let ?m = "[\<lparr>x = 0x3F800000, y = 0x40000000, c = 0xBF800000\<rparr>,
             \<lparr>x = 1, y = 0x01020304, c = 0xFFFFFFFF\<rparr>, \<lparr>x = 7, y = 7, c = 7 :: 32 word\<rparr>]"
  have a: "writable base_world ''m.map''"
    by (simp add: base_world_def)
  have b: "0 \<le> sint (2 :: 32 word)" "0 \<le> sint (1 :: 32 word)"
    "nat (sint (2 :: 32 word)) * nat (sint (1 :: 32 word)) \<le> length ?m"
    "12 * (nat (sint (2 :: 32 word)) * nat (sint (1 :: 32 word))) < 2 ^ 64"
    by simp_all
  have h: "bytes_of (''M1'' @ nl @ show_d 3 @ nl @ show_d 2 @ '' '' @ show_d 1 @ nl
                     @ show_d (- 1) @ '' '' @ show_d 5 @ nl @ ''img'' @ '' '' @ ''ref'' @ nl)
           = [77, 49, 10, 51, 10, 50, 32, 49, 10, 45, 49, 32, 53, 10,
              105, 109, 103, 32, 114, 101, 102, 10]"
    by code_simp
  have e: "concat (map (\<lambda>e. concat (map (\<lambda>v. map (\<lambda>i. ucast (drop_bit (8 * i) v)) [0 ..< 4])
                                         [x e, y e, c e]))
                       (take (nat (sint (2 :: 32 word)) * nat (sint (1 :: 32 word))) ?m))
           = [0, 0, 128, 63, 0, 0, 0, 64, 0, 0, 128, 191,
              1, 0, 0, 0, 4, 3, 2, 1, 255, 255, 255, 255 :: byte]"
    by code_simp
  from WriteMap_layout [OF a b, of 3 "- 1" 5 "''img''" "''ref''"]
  obtain body where
    f: "files (snd (WriteMap base_world ''m.map'' ?m 3 2 1 (- 1) 5 ''img'' ''ref''
                      UncompressedMap)) ''m.map''
        = Some (bytes_of (''M1'' @ nl @ show_d 3 @ nl @ show_d 2 @ '' '' @ show_d 1 @ nl
                          @ show_d (- 1) @ '' '' @ show_d 5 @ nl @ ''img'' @ '' '' @ ''ref'' @ nl)
                @ body)"
    and g: "body = concat (map (\<lambda>e. concat (map (\<lambda>v. map (\<lambda>i. ucast (drop_bit (8 * i) v))
                                                          [0 ..< 4])
                                                 [x e, y e, c e]))
                               (take (nat (sint (2 :: 32 word)) * nat (sint (1 :: 32 word))) ?m))"
    and r: "fst (WriteMap base_world ''m.map'' ?m 3 2 1 (- 1) 5 ''img'' ''ref'' UncompressedMap)
            = (if nat (sint (2 :: 32 word)) * nat (sint (1 :: 32 word)) = 0
               then Inl (''Could not write to file '' @ ''m.map'' @ nl) else Inr ())"
    by blast
  have "files (snd (WriteMap base_world ''m.map'' ?m 3 2 1 (- 1) 5 ''img'' ''ref''
                      UncompressedMap)) ''m.map''
        = Some ([77, 49, 10, 51, 10, 50, 32, 49, 10, 45, 49, 32, 53, 10,
                 105, 109, 103, 32, 114, 101, 102, 10]
                @ [0, 0, 128, 63, 0, 0, 0, 64, 0, 0, 128, 191,
                   1, 0, 0, 0, 4, 3, 2, 1, 255, 255, 255, 255])"
    by (simp only: f g h e)
  moreover have "fst (WriteMap base_world ''m.map'' ?m 3 2 1 (- 1) 5 ''img'' ''ref''
                        UncompressedMap) = Inr ()"
    using r by simp
  ultimately show ?thesis
    by simp
qed

section \<open>Properties of the subregion of an image\<close>





























end
